theory Spec2Isabelle
  imports Complex_Main
begin

section \<open>Values exchanged with the upstream services\<close>

text \<open>
  The service handles the values that \<^verbatim>\<open>response.json()\<close> yields: the Python image of
  a JSON document. An object is a Python dict, kept here as the association list of its
  items in insertion order; a JSON number is an \<^verbatim>\<open>int\<close> (unbounded) or a \<^verbatim>\<open>float\<close>,
  the latter kept as the real number it denotes (the non-finite floats, which are not
  JSON, are left out).
\<close>

datatype json =
    JNull
  | JBool bool
  | JInt int
  | JFloat real
  | JStr string
  | JArr "json list"
  | JObj "(string \<times> json) list"

text \<open>Python's truth test, as used by \<^verbatim>\<open>if x\<close>, \<^verbatim>\<open>not x\<close> and \<^verbatim>\<open>x and y\<close>.\<close>

fun truthy :: "json \<Rightarrow> bool" where
  "truthy JNull = False"
| "truthy (JBool b) = b"
| "truthy (JInt i) = (i \<noteq> 0)"
| "truthy (JFloat r) = (r \<noteq> 0)"
| "truthy (JStr s) = (s \<noteq> [])"
| "truthy (JArr xs) = (xs \<noteq> [])"
| "truthy (JObj kvs) = (kvs \<noteq> [])"

text \<open>
  The exceptions the code can meet. \<^verbatim>\<open>requests.get\<close> raises a
  \<^verbatim>\<open>RequestException\<close> when no response arrives, \<^verbatim>\<open>raise_for_status\<close> raises
  \<^verbatim>\<open>HTTPError\<close> (with the status code), \<^verbatim>\<open>response.json()\<close> raises
  \<^verbatim>\<open>requests.exceptions.JSONDecodeError\<close>; the remaining ones come from the Python
  operations applied to a payload of an unexpected shape. \<open>OutOfRange\<close> stands for what
  \<^verbatim>\<open>fromtimestamp\<close> raises on a timestamp it cannot convert (\<^verbatim>\<open>ValueError\<close>,
  \<^verbatim>\<open>OverflowError\<close> or \<^verbatim>\<open>OSError\<close>).
\<close>

datatype error =
    HTTPError nat
  | RequestException
  | JSONDecodeError
  | AttributeError
  | TypeError
  | OutOfRange

text \<open>\<^verbatim>\<open>x.get(k)\<close>: on a dict the value or \<^verbatim>\<open>None\<close>; any other JSON value has no
  attribute \<^verbatim>\<open>get\<close>.\<close>

fun py_get :: "json \<Rightarrow> string \<Rightarrow> error + json" where
  "py_get (JObj kvs) k = Inr (case map_of kvs k of None \<Rightarrow> JNull | Some v \<Rightarrow> v)"
| "py_get _ k = Inl AttributeError"

text \<open>\<^verbatim>\<open>for x in v\<close>: a list yields its elements, a dict its keys, a string its
  characters; the other JSON values are not iterable.\<close>

fun py_iter :: "json \<Rightarrow> error + json list" where
  "py_iter (JArr xs) = Inr xs"
| "py_iter (JObj kvs) = Inr (map (\<lambda>kv. JStr (fst kv)) kvs)"
| "py_iter (JStr s) = Inr (map (\<lambda>c. JStr [c]) s)"
| "py_iter _ = Inl TypeError"

text \<open>\<^verbatim>\<open>d[k] = v\<close> on a dict: an existing key keeps its place, a new key goes last.\<close>

fun dict_set :: "string \<Rightarrow> json \<Rightarrow> (string \<times> json) list \<Rightarrow> (string \<times> json) list" where
  "dict_set k v [] = [(k, v)]"
| "dict_set k v (p # ps) = (if fst p = k then (k, v) # ps else p # dict_set k v ps)"

fun py_setitem :: "json \<Rightarrow> string \<Rightarrow> json \<Rightarrow> error + json" where
  "py_setitem (JObj kvs) k v = Inr (JObj (dict_set k v kvs))"
| "py_setitem _ k v = Inl TypeError"

text \<open>Sequencing of two computations that may raise: the exception of the first one
  propagates, otherwise the second one runs on its value.\<close>

fun seq :: "error + 'a \<Rightarrow> ('a \<Rightarrow> error + 'b) \<Rightarrow> error + 'b" where
  "seq (Inl e) f = Inl e"
| "seq (Inr v) f = f v"

section \<open>The environment of one request\<close>

text \<open>
  What an upstream call comes back with: no response at all, or a response with its
  status code and its body, \<^term>\<open>None\<close> when the body is not JSON.
\<close>

datatype http_reply = NoReply | Reply nat "json option"

text \<open>
  Everything outside the program that one inbound request depends on: the place-search
  reply for a query, the weather reply to the call of the \<open>i\<close>-th submitted task, the
  instant at which that task completes (which fixes the order of
  \<^verbatim>\<open>as_completed\<close>), the local timezone as the offset from UTC in seconds in force at
  an instant, the whole seconds CPython extracts from a float timestamp, and the way the
  C library prints a year below 1000 under \<^verbatim>\<open>%Y\<close> (some pad it to four digits, some do
  not).
\<close>

record world =
  places :: "string \<Rightarrow> http_reply"
  onecall :: "nat \<Rightarrow> json \<Rightarrow> json \<Rightarrow> http_reply"
  finish :: "nat \<Rightarrow> nat"
  utcoffset :: "int \<Rightarrow> int"
  float_seconds :: "real \<Rightarrow> error + int"
  short_year :: "int \<Rightarrow> string"

text \<open>The three lines \<^verbatim>\<open>requests.get(url); response.raise_for_status();
  response.json()\<close>.\<close>

fun fetch :: "http_reply \<Rightarrow> error + json" where
  "fetch NoReply = Inl RequestException"
| "fetch (Reply st body) =
     (if 400 \<le> st \<and> st < 600 then Inl (HTTPError st)
      else (case body of None \<Rightarrow> Inl JSONDecodeError | Some data \<Rightarrow> Inr data))"

section \<open>Coordinate resolver\<close>

text \<open>
  One pass of the loop over \<^verbatim>\<open>data\<close>: \<^term>\<open>None\<close> when the \<^verbatim>\<open>if\<close> rejects the
  result, otherwise the dict \<^verbatim>\<open>dict_aux\<close> that is appended.
\<close>

definition coordinates_entry :: "json \<Rightarrow> error + json option" where
  "coordinates_entry res =
     seq (py_get res ''id'') (\<lambda>i.
       if \<not> truthy i then Inr None else
     seq (py_get res ''lat'') (\<lambda>la.
       if \<not> truthy la then Inr None else
     seq (py_get res ''long'') (\<lambda>lo.
       if \<not> truthy lo then Inr None else
     seq (py_get res ''city_name'') (\<lambda>cn.
       Inr (Some (JObj [(''id'', i), (''lat'', la), (''long'', lo), (''city_name'', cn)]))))))"

fun coordinates_loop :: "json list \<Rightarrow> json list \<Rightarrow> error + json list" where
  "coordinates_loop [] data_aux = Inr data_aux"
| "coordinates_loop (res # rest) data_aux =
     (case coordinates_entry res of
        Inl e \<Rightarrow> Inl e
      | Inr None \<Rightarrow> coordinates_loop rest data_aux
      | Inr (Some dict_aux) \<Rightarrow> coordinates_loop rest (data_aux @ [dict_aux]))"

definition get_city_coordinates :: "world \<Rightarrow> string \<Rightarrow> error + json" where
  "get_city_coordinates w city_name =
     seq (fetch (places w city_name)) (\<lambda>data.
       if truthy data then
         seq (py_iter data) (\<lambda>rs.
         seq (coordinates_loop rs []) (\<lambda>data_aux. Inr (JArr data_aux)))
       else Inr (JObj []))"

section \<open>Forecast fetcher\<close>

subsection \<open>Timestamp to local calendar date\<close>

text \<open>
  \<^verbatim>\<open>datetime.datetime.fromtimestamp(ts).strftime('%Y-%m-%d')\<close> is library code. Its
  model: the local wall-clock second count is the timestamp plus the offset in force, the
  day number is its floor quotient by 86400, and the day number is turned into a
  proleptic Gregorian date (year, month, day). For that, days are counted from 1 March
  of year 0 and split into cycles of 400 years, 100 years and 4 years and into years,
  as the library's own conversion from ordinals does; a year that starts in March has
  its leap day last. Years outside 1..9999 are rejected, as \<^verbatim>\<open>datetime\<close> does; a
  platform whose \<^verbatim>\<open>localtime\<close> accepts fewer timestamps rejects more.
\<close>

definition year_day :: "int \<Rightarrow> int \<times> int" where
  "year_day z =
     (let n = z + 719468;
          n400 = n div 146097;
          doe = n mod 146097;
          n100 = min 3 (doe div 36524);
          r1 = doe - 36524 * n100;
          n4 = r1 div 1461;
          r2 = r1 mod 1461;
          n1 = min 3 (r2 div 365)
      in (400 * n400 + 100 * n100 + 4 * n4 + n1, r2 - 365 * n1))"

definition month_day :: "int \<Rightarrow> int \<times> int" where
  "month_day doy =
     (let mp = (5 * doy + 2) div 153;
          d = doy - (153 * mp + 2) div 5 + 1
      in (if mp < 10 then mp + 3 else mp - 9, d))"

definition civil_from_days :: "int \<Rightarrow> int \<times> int \<times> int" where
  "civil_from_days z =
     (case year_day z of (y, doy) \<Rightarrow>
      case month_day doy of (m, d) \<Rightarrow> (if m \<le> 2 then y + 1 else y, m, d))"

text \<open>The argument of \<^verbatim>\<open>fromtimestamp\<close>: an \<^verbatim>\<open>int\<close> (a \<^verbatim>\<open>bool\<close> is one), a
  \<^verbatim>\<open>float\<close>, or a \<^verbatim>\<open>TypeError\<close>.\<close>

fun timestamp_seconds :: "world \<Rightarrow> json \<Rightarrow> error + int" where
  "timestamp_seconds w (JInt i) = Inr i"
| "timestamp_seconds w (JBool b) = Inr (if b then 1 else 0)"
| "timestamp_seconds w (JFloat r) = float_seconds w r"
| "timestamp_seconds w _ = Inl TypeError"

definition local_date :: "world \<Rightarrow> int \<Rightarrow> int \<times> int \<times> int" where
  "local_date w t = civil_from_days ((t + utcoffset w t) div 86400)"

text \<open>
  The date of a timestamp is its local date, provided the year is in 1..9999. The library
  also converts the instant 24 hours earlier, its probe for a repeated local hour, and
  raises when that one falls before year 1.
\<close>

definition fromtimestamp :: "world \<Rightarrow> json \<Rightarrow> error + int \<times> int \<times> int" where
  "fromtimestamp w ts =
     seq (timestamp_seconds w ts) (\<lambda>t.
       let date = local_date w t;
           probe = local_date w (t - 86400)
       in if 1 \<le> fst date \<and> fst date \<le> 9999 \<and> 1 \<le> fst probe \<and> fst probe \<le> 9999
          then Inr date else Inl OutOfRange)"

definition digit :: "int \<Rightarrow> char" where
  "digit n = ''0123456789'' ! nat (n mod 10)"

text \<open>\<^verbatim>\<open>'%Y-%m-%d'\<close>: the year, on four digits from 1000 on, month and day on two.\<close>

definition strftime_ymd :: "world \<Rightarrow> int \<times> int \<times> int \<Rightarrow> string" where
  "strftime_ymd w date =
     (case date of (y, m, d) \<Rightarrow>
        (if 1000 \<le> y then [digit (y div 1000), digit (y div 100), digit (y div 10), digit y]
         else short_year w y) @ ''-'' @
        [digit (m div 10), digit m] @ ''-'' @
        [digit (d div 10), digit d])"

subsection \<open>The fetcher\<close>

text \<open>One pass of the loop over \<^verbatim>\<open>data.get('daily')\<close>: the dict \<^verbatim>\<open>d_aux\<close>.\<close>

definition forecast_entry :: "world \<Rightarrow> json \<Rightarrow> error + json" where
  "forecast_entry w day =
     seq (py_get day ''dt'') (\<lambda>dt.
     seq (fromtimestamp w dt) (\<lambda>date.
     seq (py_get day ''temp'') (\<lambda>temp.
     seq (py_get temp ''min'') (\<lambda>tmin.
     seq (py_get day ''temp'') (\<lambda>temp'.
     seq (py_get temp' ''max'') (\<lambda>tmax.
       Inr (JObj [(''datetime'', JStr (strftime_ymd w date)),
                  (''temp_min'', tmin), (''temp_max'', tmax)])))))))"

fun forecast_loop :: "world \<Rightarrow> json list \<Rightarrow> json list \<Rightarrow> error + json list" where
  "forecast_loop w [] forecast_data = Inr forecast_data"
| "forecast_loop w (day # rest) forecast_data =
     (case forecast_entry w day of
        Inl e \<Rightarrow> Inl e
      | Inr d_aux \<Rightarrow> forecast_loop w rest (forecast_data @ [d_aux]))"

text \<open>The extra argument \<open>i\<close> is the number of the task that runs the call; the
  source's arguments are \<open>lat\<close> and \<open>long\<close>.\<close>

definition get_city_weather :: "world \<Rightarrow> nat \<Rightarrow> json \<Rightarrow> json \<Rightarrow> error + json" where
  "get_city_weather w i lat long =
     seq (fetch (onecall w i lat long)) (\<lambda>data.
       if \<not> truthy data then Inr (JArr []) else
       seq (py_get data ''daily'') (\<lambda>daily.
         if \<not> truthy daily then Inr (JArr []) else
         seq (py_iter daily) (\<lambda>days.
         seq (forecast_loop w days []) (\<lambda>forecast_data. Inr (JArr forecast_data)))))"

section \<open>Aggregator\<close>

text \<open>
  The service calls and log records of one request, in program order (fetcher calls in
  the order of their submission to the pool).
\<close>

datatype log_kind = HTTP_error | Request_error | Unexpected_error

datatype event =
    ResolverCall string
  | FetcherCall json json
  | AggregatorCall string
  | LogError log_kind string error

text \<open>
  A task submitted to the pool: its number in submission order, the candidate dict it
  is associated with in \<^verbatim>\<open>future_to_city\<close>, and the two arguments of the fetcher.
\<close>

record future =
  task :: nat
  city :: json
  arg_lat :: json
  arg_long :: json

text \<open>
  The dict comprehension that builds \<^verbatim>\<open>future_to_city\<close>: every candidate is read and
  its task submitted.
\<close>

fun submit_all :: "json list \<Rightarrow> future list \<Rightarrow> error option \<times> future list" where
  "submit_all [] futures = (None, futures)"
| "submit_all (city_res # rest) futures =
     (case py_get city_res ''lat'' of
        Inl e \<Rightarrow> (Some e, futures)
      | Inr lat \<Rightarrow>
          (case py_get city_res ''long'' of
             Inl e \<Rightarrow> (Some e, futures)
           | Inr long \<Rightarrow>
               submit_all rest
                 (futures @ [\<lparr>task = length futures, city = city_res,
                              arg_lat = lat, arg_long = long\<rparr>])))"

text \<open>
  \<^verbatim>\<open>as_completed\<close> yields every future once, in an order the program does not
  control: here by the rank \<^term>\<open>finish w i\<close> of task \<open>i\<close>, equal ranks in
  submission order.
\<close>

definition as_completed :: "world \<Rightarrow> future list \<Rightarrow> future list" where
  "as_completed w futures = sort_key (\<lambda>f. finish w (task f)) futures"

text \<open>\<^verbatim>\<open>future.result()\<close>: what the task returned, or the exception it raised.\<close>

definition future_result :: "world \<Rightarrow> future \<Rightarrow> error + json" where
  "future_result w f = get_city_weather w (task f) (arg_lat f) (arg_long f)"

text \<open>The loop over the completed futures, with \<^verbatim>\<open>results\<close> as accumulator.\<close>

fun collect :: "world \<Rightarrow> future list \<Rightarrow> json list \<Rightarrow> error + json list" where
  "collect w [] results = Inr results"
| "collect w (f # rest) results =
     (case future_result w f of
        Inl e \<Rightarrow> Inl e
      | Inr city_weather \<Rightarrow>
          (case py_setitem (city f) ''weather'' city_weather of
             Inl e \<Rightarrow> Inl e
           | Inr city_res \<Rightarrow> collect w rest (results @ [city_res])))"

definition fetcher_calls :: "future list \<Rightarrow> event list" where
  "fetcher_calls futures = map (\<lambda>f. FetcherCall (arg_lat f) (arg_long f)) futures"

definition get_city_and_weather_info :: "world \<Rightarrow> string
    \<Rightarrow> (error + json list) \<times> event list" where
  "get_city_and_weather_info w city_name =
     (case get_city_coordinates w city_name of
        Inl e \<Rightarrow> (Inl e, [ResolverCall city_name])
      | Inr city_coordinates \<Rightarrow>
          if \<not> truthy city_coordinates then (Inr [], [ResolverCall city_name])
          else
            (case py_iter city_coordinates of
               Inl e \<Rightarrow> (Inl e, [ResolverCall city_name])
             | Inr cs \<Rightarrow>
                 (case submit_all cs [] of
                    (Some e, futures) \<Rightarrow>
                      (Inl e, ResolverCall city_name # fetcher_calls futures)
                  | (None, futures) \<Rightarrow>
                      (collect w (as_completed w futures) [],
                       ResolverCall city_name # fetcher_calls futures))))"

section \<open>Request handler\<close>

text \<open>The inbound request: its query parameters, as parsed key/value pairs in the
  order of the query string. \<^verbatim>\<open>QueryDict.get\<close> returns the last value of a key.\<close>

record request =
  GET :: "(string \<times> string) list"

definition querydict_get :: "(string \<times> string) list \<Rightarrow> string \<Rightarrow> string option" where
  "querydict_get q k =
     (case filter (\<lambda>p. fst p = k) q of [] \<Rightarrow> None | p # ps \<Rightarrow> Some (snd (last (p # ps))))"

record response =
  status :: nat
  body :: json

definition error_response :: "string \<Rightarrow> nat \<Rightarrow> response" where
  "error_response message st = \<lparr>status = st, body = JObj [(''error'', JStr message)]\<rparr>"

text \<open>The \<^verbatim>\<open>except\<close> clauses, in the order of the source:
  \<^verbatim>\<open>requests.HTTPError\<close>, then \<^verbatim>\<open>requests.RequestException\<close> (of which the JSON
  decoding error of \<^verbatim>\<open>requests\<close> is a subclass), then \<^verbatim>\<open>Exception\<close>.\<close>

fun log_kind_of :: "error \<Rightarrow> log_kind" where
  "log_kind_of (HTTPError st) = HTTP_error"
| "log_kind_of RequestException = Request_error"
| "log_kind_of JSONDecodeError = Request_error"
| "log_kind_of _ = Unexpected_error"

definition WeatherForecastView_get :: "world \<Rightarrow> request \<Rightarrow> response \<times> event list" where
  "WeatherForecastView_get w req =
     (case querydict_get (GET req) ''city'' of
        None \<Rightarrow> (error_response ''City name is required'' 400, [])
      | Some city_name \<Rightarrow>
          if city_name = [] then (error_response ''City name is required'' 400, [])
          else
            (case get_city_and_weather_info w city_name of
               (Inr result, tr) \<Rightarrow>
                 if result = []
                 then (error_response ''City not found'' 404, AggregatorCall city_name # tr)
                 else (\<lparr>status = 200, body = JArr result\<rparr>, AggregatorCall city_name # tr)
             | (Inl e, tr) \<Rightarrow>
                 (error_response ''An error occurred, please try again later.'' 500,
                  AggregatorCall city_name # tr @ [LogError (log_kind_of e) city_name e])))"

section \<open>Notions used to state the properties\<close>

text \<open>A field of an upstream result: its value when the result is an object that has
  the key, \<^term>\<open>None\<close> when the field is missing.\<close>

fun field :: "json \<Rightarrow> string \<Rightarrow> json option" where
  "field (JObj kvs) k = map_of kvs k"
| "field _ k = None"

fun is_object :: "json \<Rightarrow> bool" where
  "is_object (JObj kvs) = True"
| "is_object _ = False"

text \<open>The value of a field, with null standing for a missing one.\<close>

definition value_of :: "json \<Rightarrow> string \<Rightarrow> json" where
  "value_of r k = (case field r k of None \<Rightarrow> JNull | Some v \<Rightarrow> v)"

text \<open>The projection of an upstream place to the four fields of a candidate.\<close>

definition candidate :: "json \<Rightarrow> json" where
  "candidate r =
     JObj [(''id'', value_of r ''id''), (''lat'', value_of r ''lat''),
           (''long'', value_of r ''long''), (''city_name'', value_of r ''city_name'')]"

text \<open>The three fields are present.\<close>

definition has_coordinates :: "json \<Rightarrow> bool" where
  "has_coordinates r \<longleftrightarrow>
     field r ''id'' \<noteq> None \<and> field r ''lat'' \<noteq> None \<and> field r ''long'' \<noteq> None"

text \<open>The three fields are present and none of them is null, false, zero or empty.\<close>

definition usable :: "json \<Rightarrow> bool" where
  "usable r \<longleftrightarrow>
     truthy (value_of r ''id'') \<and> truthy (value_of r ''lat'') \<and> truthy (value_of r ''long'')"

text \<open>A daily entry the fetcher can convert: an object whose \<^verbatim>\<open>dt\<close> is an integer
  timestamp with a local time between 1000-01-01 00:00:00 and 9999-12-31 23:59:59, the
  local time 24 hours earlier falling between 0001-01-01 00:00:00 and 9999-12-31
  23:59:59, and whose \<^verbatim>\<open>temp\<close> is an object.\<close>

definition daily_entry_ok :: "world \<Rightarrow> json \<Rightarrow> bool" where
  "daily_entry_ok w day =
     (case field day ''dt'' of
        Some (JInt t) \<Rightarrow>
          - 30610224000 \<le> t + utcoffset w t \<and> t + utcoffset w t \<le> 253402300799 \<and>
          - 62135596800 \<le> t - 86400 + utcoffset w (t - 86400) \<and>
          t - 86400 + utcoffset w (t - 86400) \<le> 253402300799 \<and>
          (case field day ''temp'' of Some temp \<Rightarrow> is_object temp | None \<Rightarrow> False)
      | _ \<Rightarrow> False)"

text \<open>The record expected for a daily entry with the integer timestamp \<open>t\<close>.\<close>

definition daily_record :: "world \<Rightarrow> json \<Rightarrow> json" where
  "daily_record w day =
     (case field day ''dt'' of
        Some (JInt t) \<Rightarrow>
          JObj [(''datetime'', JStr (strftime_ymd w (local_date w t))),
                (''temp_min'', value_of (value_of day ''temp'') ''min''),
                (''temp_max'', value_of (value_of day ''temp'') ''max'')]
      | _ \<Rightarrow> JNull)"

text \<open>
  The proleptic Gregorian calendar, stated directly: leap years, the lengths of the
  months, and the number of a day counted from 1 January 1970 (day 0), which is the sum
  of the days of the years and months that precede it.
\<close>

definition leap_year :: "int \<Rightarrow> bool" where
  "leap_year y \<longleftrightarrow> y mod 4 = 0 \<and> (y mod 100 \<noteq> 0 \<or> y mod 400 = 0)"

definition days_in_month :: "int \<Rightarrow> int \<Rightarrow> int" where
  "days_in_month y m =
     (if m = 2 then (if leap_year y then 29 else 28)
      else if m = 4 \<or> m = 6 \<or> m = 9 \<or> m = 11 then 30 else 31)"

definition days_before_year :: "int \<Rightarrow> int" where
  "days_before_year y = 365 * (y - 1) + (y - 1) div 4 - (y - 1) div 100 + (y - 1) div 400"

definition days_before_month :: "int \<Rightarrow> int \<Rightarrow> int" where
  "days_before_month y m = sum_list (map (days_in_month y) [1..m - 1])"

definition valid_date :: "int \<times> int \<times> int \<Rightarrow> bool" where
  "valid_date date =
     (case date of (y, m, d) \<Rightarrow> 1 \<le> m \<and> m \<le> 12 \<and> 1 \<le> d \<and> d \<le> days_in_month y m)"

definition day_number :: "int \<times> int \<times> int \<Rightarrow> int" where
  "day_number date =
     (case date of (y, m, d) \<Rightarrow> days_before_year y + days_before_month y m + d - 719163)"

text \<open>The number of days from 1 March to the first day of a month, within a year
  that runs from March to February.\<close>

definition march_offset :: "int \<Rightarrow> int" where
  "march_offset m =
     (if m = 3 then 0 else if m = 4 then 31 else if m = 5 then 61 else if m = 6 then 92
      else if m = 7 then 122 else if m = 8 then 153 else if m = 9 then 184
      else if m = 10 then 214 else if m = 11 then 245 else if m = 12 then 275
      else if m = 1 then 306 else 337)"

text \<open>Reading a decimal numeral back.\<close>

definition digit_value :: "char \<Rightarrow> int" where
  "digit_value c = int (length (takeWhile (\<lambda>x. x \<noteq> c) ''0123456789''))"

definition decimal :: "string \<Rightarrow> int" where
  "decimal s = foldl (\<lambda>a c. 10 * a + digit_value c) 0 s"

text \<open>The shape \<^verbatim>\<open>YYYY-MM-DD\<close> of a string, and the date it denotes.\<close>

definition is_digit :: "char \<Rightarrow> bool" where
  "is_digit c \<longleftrightarrow> c \<in> set ''0123456789''"

definition ymd_shape :: "string \<Rightarrow> bool" where
  "ymd_shape s \<longleftrightarrow>
     length s = 10 \<and> s ! 4 = CHR ''-'' \<and> s ! 7 = CHR ''-'' \<and>
     list_all (\<lambda>i. is_digit (s ! i)) [0, 1, 2, 3, 5, 6, 8, 9]"

definition parse_ymd :: "string \<Rightarrow> int \<times> int \<times> int" where
  "parse_ymd s = (decimal (take 4 s), decimal (take 2 (drop 5 s)), decimal (drop 8 s))"

text \<open>Recognisers of the calls recorded in a trace.\<close>

fun is_fetcher_call :: "event \<Rightarrow> bool" where
  "is_fetcher_call (FetcherCall lat long) = True"
| "is_fetcher_call _ = False"

fun is_aggregator_call :: "event \<Rightarrow> bool" where
  "is_aggregator_call (AggregatorCall c) = True"
| "is_aggregator_call _ = False"

text \<open>
  A world for worked examples: the same place-search reply whatever the query, the
  weather replies listed by task number (no reply beyond the list), tasks yielded in
  reverse order of submission, a server six hours west of UTC whose C library pads
  years to four digits.
\<close>

definition sample_world :: "http_reply \<Rightarrow> http_reply list \<Rightarrow> world" where
  "sample_world p qs =
     \<lparr>places = (\<lambda>q. p),
      onecall = (\<lambda>i lat long. if i < length qs then qs ! i else NoReply),
      finish = (\<lambda>i. 10 - i),
      utcoffset = (\<lambda>t. - 21600),
      float_seconds = (\<lambda>r. Inr \<lfloor>r\<rfloor>),
      short_year = (\<lambda>y. [digit (y div 1000), digit (y div 100), digit (y div 10), digit y])\<rparr>"

section \<open>Auxiliary facts\<close>

lemma py_get_object: "is_object r \<Longrightarrow> py_get r k = Inr (value_of r k)"
  by (cases r) (simp_all add: value_of_def)

lemma coordinates_entry_object:
  "is_object r \<Longrightarrow> coordinates_entry r = Inr (if usable r then Some (candidate r) else None)"
  by (simp add: coordinates_entry_def py_get_object usable_def candidate_def)

lemma coordinates_entry_not_object: "\<not> is_object r \<Longrightarrow> coordinates_entry r = Inl AttributeError"
  by (cases r) (simp_all add: coordinates_entry_def)

lemma coordinates_loop_objects:
  "\<forall>r\<in>set rs. is_object r \<Longrightarrow>
   coordinates_loop rs data_aux = Inr (data_aux @ map candidate (filter usable rs))"
  by (induction rs arbitrary: data_aux) (simp_all add: coordinates_entry_object)

lemma usable_has_coordinates: "usable r \<Longrightarrow> has_coordinates r"
  by (auto simp: usable_def has_coordinates_def value_of_def split: option.splits)

lemma get_city_coordinates_objects:
  assumes "fetch (places w q) = Inr (JArr rs)" and "rs \<noteq> []" and "\<forall>r\<in>set rs. is_object r"
  shows "get_city_coordinates w q = Inr (JArr (map candidate (filter usable rs)))"
  using assms by (simp add: get_city_coordinates_def coordinates_loop_objects)


lemma seq_Inr_iff: "seq x f = Inr v \<longleftrightarrow> (\<exists>a. x = Inr a \<and> f a = Inr v)"
  by (cases x) simp_all

lemma get_city_weather_list:
  "get_city_weather w i lat long = Inr v \<Longrightarrow> \<exists>ws. v = JArr ws"
  by (auto simp: get_city_weather_def seq_Inr_iff split: if_splits)

lemma coordinates_entry_shape:
  assumes "coordinates_entry r = Inr (Some c)"
  shows "is_object r \<and> usable r \<and> c = candidate r"
proof (cases "is_object r")
  case True
  from assms coordinates_entry_object [OF True] show ?thesis
    using True by (cases "usable r") simp_all
next
  case False
  from assms coordinates_entry_not_object [OF False] show ?thesis by simp
qed

lemma coordinates_loop_objects_out:
  "coordinates_loop rs data_aux = Inr out \<Longrightarrow> \<forall>c\<in>set data_aux. is_object c \<Longrightarrow>
   \<forall>c\<in>set out. is_object c"
proof (induction rs arbitrary: data_aux)
  case Nil
  then show ?case by simp
next
  case (Cons r rs)
  show ?case
  proof (cases "coordinates_entry r")
    case (Inl e)
    with Cons.prems(1) show ?thesis by simp
  next
    case (Inr oc)
    show ?thesis
    proof (cases oc)
      case None
      with Inr Cons.prems(1) have "coordinates_loop rs data_aux = Inr out" by simp
      from Cons.IH [OF this Cons.prems(2)] show ?thesis .
    next
      case (Some c)
      with Inr have "c = candidate r" using coordinates_entry_shape by blast
      then have obj: "is_object c" by (simp add: candidate_def)
      from Some Inr Cons.prems(1) have run: "coordinates_loop rs (data_aux @ [c]) = Inr out"
        by simp
      from obj Cons.prems(2) have "\<forall>c\<in>set (data_aux @ [c]). is_object c" by simp
      from Cons.IH [OF run this] show ?thesis .
    qed
  qed
qed

lemma get_city_coordinates_shape:
  assumes "get_city_coordinates w q = Inr cc"
  shows "cc = JObj [] \<or> (\<exists>cs. cc = JArr cs \<and> (\<forall>c\<in>set cs. is_object c))"
proof -
  from assms obtain data where data: "fetch (places w q) = Inr data"
    and rest: "(if truthy data then
         seq (py_iter data) (\<lambda>rs.
         seq (coordinates_loop rs []) (\<lambda>data_aux. Inr (JArr data_aux)))
       else Inr (JObj [])) = Inr cc"
    unfolding get_city_coordinates_def seq_Inr_iff by blast
  show ?thesis
  proof (cases "truthy data")
    case False
    with rest show ?thesis by simp
  next
    case True
    with rest obtain rs cs where "coordinates_loop rs [] = Inr cs" and "cc = JArr cs"
      by (auto simp: seq_Inr_iff)
    with coordinates_loop_objects_out [of rs "[]" cs] show ?thesis by simp
  qed
qed


lemma submit_all_objects:
  "\<forall>c\<in>set cs. is_object c \<Longrightarrow>
   \<exists>fs. submit_all cs futures = (None, futures @ fs) \<and> length fs = length cs \<and>
     (\<forall>j<length cs. fs ! j = \<lparr>task = length futures + j, city = cs ! j,
         arg_lat = value_of (cs ! j) ''lat'', arg_long = value_of (cs ! j) ''long''\<rparr>)"
proof (induction cs arbitrary: futures)
  case Nil
  then show ?case by simp
next
  case (Cons c cs)
  let ?f = "\<lparr>task = length futures, city = c,
         arg_lat = value_of c ''lat'', arg_long = value_of c ''long''\<rparr>"
  from Cons.prems have step: "submit_all (c # cs) futures = submit_all cs (futures @ [?f])"
    by (simp add: py_get_object)
  from Cons.prems have "\<forall>c\<in>set cs. is_object c" by simp
  from Cons.IH [OF this, of "futures @ [?f]"] obtain fs where
    fs: "submit_all cs (futures @ [?f]) = (None, (futures @ [?f]) @ fs)" "length fs = length cs"
    "\<forall>j<length cs. fs ! j = \<lparr>task = length (futures @ [?f]) + j, city = cs ! j,
         arg_lat = value_of (cs ! j) ''lat'', arg_long = value_of (cs ! j) ''long''\<rparr>"
    by blast
  have "\<forall>j<length (c # cs). (?f # fs) ! j = \<lparr>task = length futures + j, city = (c # cs) ! j,
         arg_lat = value_of ((c # cs) ! j) ''lat'', arg_long = value_of ((c # cs) ! j) ''long''\<rparr>"
  proof (intro allI impI)
    fix j assume "j < length (c # cs)"
    then show "(?f # fs) ! j = \<lparr>task = length futures + j, city = (c # cs) ! j,
         arg_lat = value_of ((c # cs) ! j) ''lat'', arg_long = value_of ((c # cs) ! j) ''long''\<rparr>"
      using fs(3) by (cases j) simp_all
  qed
  with step fs(1,2) show ?case
    by (intro exI [of _ "?f # fs"]) simp
qed

lemma map_of_dict_set: "map_of (dict_set k v kvs) k = Some v"
  by (induction kvs) auto

lemma future_result_list: "future_result w f = Inr v \<Longrightarrow> \<exists>ws. v = JArr ws"
  unfolding future_result_def by (rule get_city_weather_list)

lemma collect_succeeds:
  assumes "\<forall>f\<in>set fl. is_object (city f) \<and> (\<exists>v. future_result w f = Inr v)"
    and "\<forall>item\<in>set results. \<exists>ws. py_get item ''weather'' = Inr (JArr ws)"
  shows "\<exists>out. collect w fl results = Inr out \<and> length out = length results + length fl \<and>
           (\<forall>item\<in>set out. \<exists>ws. py_get item ''weather'' = Inr (JArr ws))"
  using assms
proof (induction fl arbitrary: results)
  case Nil
  then show ?case by simp
next
  case (Cons f fl)
  from Cons.prems(1) obtain v where v: "future_result w f = Inr v"
    and obj: "is_object (city f)" by auto
  from v obtain ws where ws: "v = JArr ws" using future_result_list by blast
  from obj obtain kvs where kvs: "city f = JObj kvs" by (cases "city f") auto
  let ?c = "JObj (dict_set ''weather'' (JArr ws) kvs)"
  have step: "collect w (f # fl) results = collect w fl (results @ [?c])"
    by (simp add: v ws kvs)
  have a: "\<forall>item\<in>set (results @ [?c]). \<exists>ws. py_get item ''weather'' = Inr (JArr ws)"
    using Cons.prems(2) by (simp add: map_of_dict_set)
  from Cons.prems(1) have b: "\<forall>f\<in>set fl. is_object (city f) \<and> (\<exists>v. future_result w f = Inr v)"
    by simp
  from Cons.IH [OF b a] step show ?case by simp
qed

lemma collect_fails:
  assumes "f \<in> set fl" and "future_result w f = Inl e"
    and "\<forall>g\<in>set fl. is_object (city g)"
  shows "\<exists>e' g. g \<in> set fl \<and> future_result w g = Inl e' \<and> collect w fl results = Inl e'"
  using assms
proof (induction fl arbitrary: results)
  case Nil
  then show ?case by simp
next
  case (Cons h fl)
  show ?case
  proof (cases "future_result w h")
    case (Inl e')
    then have "collect w (h # fl) results = Inl e'" by simp
    with Inl show ?thesis by (intro exI [of _ e'] exI [of _ h]) simp
  next
    case (Inr v)
    from Cons.prems(3) obtain kvs where kvs: "city h = JObj kvs" by (cases "city h") auto
    have step: "collect w (h # fl) results = collect w fl (results @ [JObj (dict_set ''weather'' v kvs)])"
      by (simp add: Inr kvs)
    from Inr Cons.prems(1,2) have "f \<in> set fl" by auto
    moreover from Cons.prems(3) have "\<forall>g\<in>set fl. is_object (city g)" by simp
    ultimately obtain e' g where "g \<in> set fl" "future_result w g = Inl e'"
      "collect w fl (results @ [JObj (dict_set ''weather'' v kvs)]) = Inl e'"
      using Cons.IH [of "results @ [JObj (dict_set ''weather'' v kvs)]"] Cons.prems(2) by blast
    with step show ?thesis by (intro exI [of _ e'] exI [of _ g]) simp
  qed
qed

lemma set_as_completed: "set (as_completed w futures) = set futures"
  by (simp add: as_completed_def)

lemma length_as_completed: "length (as_completed w futures) = length futures"
  by (simp add: as_completed_def)

lemma py_iter_empty_falsy: "py_iter cc = Inr [] \<Longrightarrow> \<not> truthy cc"
  by (cases cc) simp_all

lemma querydict_get_missing: "k \<notin> fst ` set q \<Longrightarrow> querydict_get q k = None"
proof -
  assume "k \<notin> fst ` set q"
  then have "filter (\<lambda>p. fst p = k) q = []"
    by (auto simp: filter_empty_conv)
  then show ?thesis by (simp add: querydict_get_def)
qed

section \<open>Facts about the calendar\<close>

lemma div_bounds:
  fixes a b :: int
  assumes "0 < b"
  shows "b * (a div b) \<le> a" and "a < b * (a div b) + b"
proof -
  have "a = b * (a div b) + a mod b" by simp
  moreover have "0 \<le> a mod b" "a mod b < b" using assms by simp_all
  ultimately show "b * (a div b) \<le> a" and "a < b * (a div b) + b" by linarith+
qed

lemma div_unique_int:
  fixes a b q :: int
  assumes "b * q \<le> a" and "a < b * q + b"
  shows "a div b = q"
proof (rule int_div_pos_eq)
  show "a = b * q + (a - b * q)" by simp
  show "0 \<le> a - b * q" using assms(1) by simp
  show "a - b * q < b" using assms(2) by simp
qed

lemma mod_unique_int:
  fixes a b q :: int
  assumes "b * q \<le> a" and "a < b * q + b"
  shows "a mod b = a - b * q"
  using div_unique_int [OF assms] by (simp add: minus_mult_div_eq_mod [symmetric])

lemma month_day_facts:
  assumes "0 \<le> doy" and "doy \<le> 365" and "month_day doy = (m, d)"
  shows "1 \<le> m \<and> m \<le> 12 \<and> 1 \<le> d \<and> doy = march_offset m + d - 1 \<and>
         d \<le> (if m = 2 then (if doy = 365 then 29 else 28)
               else if m = 4 \<or> m = 6 \<or> m = 9 \<or> m = 11 then 30 else 31)"
proof -
  define mp where "mp = (5 * doy + 2) div 153"
  from div_bounds [of 153 "5 * doy + 2"] have
    lo: "153 * mp \<le> 5 * doy + 2" and hi: "5 * doy + 2 < 153 * mp + 153"
    by (simp_all add: mp_def)
  from lo hi assms(1,2) have "0 \<le> mp" "mp \<le> 11" by linarith+
  then consider "mp = 0" | "mp = 1" | "mp = 2" | "mp = 3" | "mp = 4" | "mp = 5" | "mp = 6"
    | "mp = 7" | "mp = 8" | "mp = 9" | "mp = 10" | "mp = 11"
    by atomize_elim presburger
  then show ?thesis
  proof cases
    case 1
    with assms(3) have "m = 3" "d = doy + 1"
      by (simp_all add: month_day_def mp_def [symmetric])
    with lo hi 1 assms(1,2) show ?thesis by (simp add: march_offset_def)
  next
    case 2
    with assms(3) have "m = 4" "d = doy - 31 + 1"
      by (simp_all add: month_day_def mp_def [symmetric])
    with lo hi 2 assms(1,2) show ?thesis by (simp add: march_offset_def)
  next
    case 3
    with assms(3) have "m = 5" "d = doy - 61 + 1"
      by (simp_all add: month_day_def mp_def [symmetric])
    with lo hi 3 assms(1,2) show ?thesis by (simp add: march_offset_def)
  next
    case 4
    with assms(3) have "m = 6" "d = doy - 92 + 1"
      by (simp_all add: month_day_def mp_def [symmetric])
    with lo hi 4 assms(1,2) show ?thesis by (simp add: march_offset_def)
  next
    case 5
    with assms(3) have "m = 7" "d = doy - 122 + 1"
      by (simp_all add: month_day_def mp_def [symmetric])
    with lo hi 5 assms(1,2) show ?thesis by (simp add: march_offset_def)
  next
    case 6
    with assms(3) have "m = 8" "d = doy - 153 + 1"
      by (simp_all add: month_day_def mp_def [symmetric])
    with lo hi 6 assms(1,2) show ?thesis by (simp add: march_offset_def)
  next
    case 7
    with assms(3) have "m = 9" "d = doy - 184 + 1"
      by (simp_all add: month_day_def mp_def [symmetric])
    with lo hi 7 assms(1,2) show ?thesis by (simp add: march_offset_def)
  next
    case 8
    with assms(3) have "m = 10" "d = doy - 214 + 1"
      by (simp_all add: month_day_def mp_def [symmetric])
    with lo hi 8 assms(1,2) show ?thesis by (simp add: march_offset_def)
  next
    case 9
    with assms(3) have "m = 11" "d = doy - 245 + 1"
      by (simp_all add: month_day_def mp_def [symmetric])
    with lo hi 9 assms(1,2) show ?thesis by (simp add: march_offset_def)
  next
    case 10
    with assms(3) have "m = 12" "d = doy - 275 + 1"
      by (simp_all add: month_day_def mp_def [symmetric])
    with lo hi 10 assms(1,2) show ?thesis by (simp add: march_offset_def)
  next
    case 11
    with assms(3) have "m = 1" "d = doy - 306 + 1"
      by (simp_all add: month_day_def mp_def [symmetric])
    with lo hi 11 assms(1,2) show ?thesis by (simp add: march_offset_def)
  next
    case 12
    with assms(3) have "m = 2" "d = doy - 337 + 1"
      by (simp_all add: month_day_def mp_def [symmetric])
    with lo hi 12 assms(1,2) show ?thesis by (simp add: march_offset_def)
  qed
qed

lemma year_day_facts:
  assumes "year_day z = (y, doy)"
  shows "\<exists>n400 n100 n4 n1.
           y = 400 * n400 + 100 * n100 + 4 * n4 + n1 \<and>
           0 \<le> n100 \<and> n100 \<le> 3 \<and> 0 \<le> n4 \<and> n4 \<le> 24 \<and> 0 \<le> n1 \<and> n1 \<le> 3 \<and>
           0 \<le> doy \<and> doy \<le> 365 \<and> (doy = 365 \<longrightarrow> n1 = 3 \<and> (n4 \<noteq> 24 \<or> n100 = 3)) \<and>
           z + 719468 = 146097 * n400 + 36524 * n100 + 1461 * n4 + 365 * n1 + doy"
proof -
  define n where "n = z + 719468"
  define n400 where "n400 = n div 146097"
  define doe where "doe = n mod 146097"
  define q100 where "q100 = doe div 36524"
  define n100 where "n100 = min 3 q100"
  define r1 where "r1 = doe - 36524 * n100"
  define n4 where "n4 = r1 div 1461"
  define r2 where "r2 = r1 mod 1461"
  define q1 where "q1 = r2 div 365"
  define n1 where "n1 = min 3 q1"
  have n: "n = 146097 * n400 + doe" by (simp add: n400_def doe_def)
  have doe: "0 \<le> doe" "doe < 146097" by (simp_all add: doe_def)
  from div_bounds [of 36524 doe] have q100: "36524 * q100 \<le> doe" "doe < 36524 * q100 + 36524"
    by (simp_all add: q100_def)
  with doe have q100r: "0 \<le> q100" "q100 \<le> 4" by linarith+
  then have n100: "0 \<le> n100" "n100 \<le> 3" by (simp_all add: n100_def)
  have r1c: "0 \<le> r1 \<and> r1 \<le> 36524 \<and> (r1 = 36524 \<longrightarrow> n100 = 3)"
  proof (cases "q100 \<le> 3")
    case True
    then have e: "n100 = q100" by (simp add: n100_def)
    from q100 show ?thesis by (simp add: r1_def e)
  next
    case False
    with q100r have e: "q100 = 4" "n100 = 3" by (simp_all add: n100_def)
    from q100(1) doe(2) e show ?thesis by (simp add: r1_def)
  qed
  then have r1: "0 \<le> r1" "r1 \<le> 36524" "r1 = 36524 \<longrightarrow> n100 = 3" by simp_all
  from div_bounds [of 1461 r1] have n4b: "1461 * n4 \<le> r1" "r1 < 1461 * n4 + 1461"
    by (simp_all add: n4_def)
  with r1 have n4: "0 \<le> n4" "n4 \<le> 24" by linarith+
  have r2e: "r2 = r1 - 1461 * n4" by (simp add: r2_def n4_def minus_mult_div_eq_mod)
  with n4b have r2: "0 \<le> r2" "r2 \<le> 1460" by linarith+
  from div_bounds [of 365 r2] have q1: "365 * q1 \<le> r2" "r2 < 365 * q1 + 365"
    by (simp_all add: q1_def)
  with r2 have q1r: "0 \<le> q1" "q1 \<le> 4" by linarith+
  then have n1: "0 \<le> n1" "n1 \<le> 3" by (simp_all add: n1_def)
  have "year_day z = (400 * n400 + 100 * n100 + 4 * n4 + n1, r2 - 365 * n1)"
    by (simp only: year_day_def Let_def n_def n400_def doe_def q100_def n100_def r1_def
        n4_def r2_def q1_def n1_def)
  with assms have y: "y = 400 * n400 + 100 * n100 + 4 * n4 + n1" and d: "doy = r2 - 365 * n1"
    by simp_all
  have doyc: "0 \<le> doy \<and> doy \<le> 365 \<and> (doy = 365 \<longrightarrow> n1 = 3 \<and> r2 = 1460)"
  proof (cases "q1 \<le> 3")
    case True
    then have e: "n1 = q1" by (simp add: n1_def)
    from q1 show ?thesis by (simp add: d e)
  next
    case False
    with q1r have e: "q1 = 4" "n1 = 3" by (simp_all add: n1_def)
    from q1(1) r2(2) e show ?thesis by (simp add: d)
  qed
  then have doy: "0 \<le> doy" "doy \<le> 365" "doy = 365 \<longrightarrow> n1 = 3 \<and> r2 = 1460" by simp_all
  have leap: "doy = 365 \<longrightarrow> n1 = 3 \<and> (n4 \<noteq> 24 \<or> n100 = 3)"
  proof
    assume "doy = 365"
    with doy(3) have a: "n1 = 3" "r2 = 1460" by simp_all
    have "n4 = 24 \<longrightarrow> n100 = 3"
    proof
      assume "n4 = 24"
      with a(2) r2e have "r1 = 36524" by simp
      with r1(3) show "n100 = 3" by simp
    qed
    with a(1) show "n1 = 3 \<and> (n4 \<noteq> 24 \<or> n100 = 3)" by blast
  qed
  have sum: "z + 719468 = 146097 * n400 + 36524 * n100 + 1461 * n4 + 365 * n1 + doy"
    using n r2e by (simp add: d r1_def n_def)
  from y n100 n4 n1 doy(1,2) leap sum show ?thesis by blast
qed

lemma cycles_div:
  fixes a b c e :: int
  assumes "0 \<le> b" "b \<le> 3" "0 \<le> c" "c \<le> 24" "0 \<le> e" "e \<le> 3"
    and "y = 400 * a + 100 * b + 4 * c + e"
  shows "y div 4 = 100 * a + 25 * b + c" and "y div 100 = 4 * a + b" and "y div 400 = a"
proof -
  show "y div 4 = 100 * a + 25 * b + c"
    by (rule div_unique_int) (use assms in simp_all)
  show "y div 100 = 4 * a + b"
    by (rule div_unique_int) (use assms in simp_all)
  show "y div 400 = a"
    by (rule div_unique_int) (use assms in simp_all)
qed

lemma days_before_next_year:
  fixes a b c e :: int
  assumes "0 \<le> b" "b \<le> 3" "0 \<le> c" "c \<le> 24" "0 \<le> e" "e \<le> 3"
    and "y = 400 * a + 100 * b + 4 * c + e"
  shows "days_before_year (y + 1) = 365 * y + 97 * a + 24 * b + c"
  using cycles_div [OF assms] by (simp add: days_before_year_def)

lemma div_step:
  fixes y k :: int
  assumes "0 < k"
  shows "y div k - (y - 1) div k = (if y mod k = 0 then 1 else 0)"
proof -
  define q where "q = (y - 1) div k"
  define r where "r = (y - 1) mod k"
  have r: "0 \<le> r" "r < k" using assms by (simp_all add: r_def)
  have y: "y = k * q + r + 1"
    using mult_div_mod_eq [of k "y - 1"] by (simp add: q_def r_def)
  show ?thesis
  proof (cases "r = k - 1")
    case True
    with y have y': "y = k * (q + 1)" by (simp add: algebra_simps)
    then have "y div k = q + 1" "y mod k = 0" using assms by simp_all
    then show ?thesis by (simp add: q_def)
  next
    case False
    with r have lt: "r + 1 < k" by simp
    have d: "y div k = q"
      by (rule div_unique_int) (use y r lt in simp_all)
    have "y mod k = y - k * q"
      by (rule mod_unique_int) (use y r lt in simp_all)
    with y r have "y mod k \<noteq> 0" by simp
    with d show ?thesis by (simp add: q_def)
  qed
qed

lemma mod_400_100: "(y::int) mod 400 = 0 \<Longrightarrow> y mod 100 = 0"
proof -
  assume "y mod 400 = 0"
  then have "400 dvd y" by (simp add: mod_eq_0_iff_dvd)
  moreover have "(100::int) dvd 400" by simp
  ultimately have "100 dvd y" by (rule dvd_trans [rotated])
  then show ?thesis by (simp add: mod_eq_0_iff_dvd)
qed

lemma mod_100_4: "(y::int) mod 100 = 0 \<Longrightarrow> y mod 4 = 0"
proof -
  assume "y mod 100 = 0"
  then have "100 dvd y" by (simp add: mod_eq_0_iff_dvd)
  moreover have "(4::int) dvd 100" by simp
  ultimately have "4 dvd y" by (rule dvd_trans [rotated])
  then show ?thesis by (simp add: mod_eq_0_iff_dvd)
qed

lemma leap_step:
  "days_before_year (y + 1) = days_before_year y + 365 + (if leap_year y then 1 else 0)"
proof -
  define P4 where "P4 \<longleftrightarrow> y mod 4 = 0"
  define P100 where "P100 \<longleftrightarrow> y mod 100 = 0"
  define P400 where "P400 \<longleftrightarrow> y mod 400 = 0"
  define d4 where "d4 = y div 4"
  define d100 where "d100 = y div 100"
  define d400 where "d400 = y div 400"
  define c4 where "c4 = (y - 1) div 4"
  define c100 where "c100 = (y - 1) div 100"
  define c400 where "c400 = (y - 1) div 400"
  have s4: "d4 - c4 = (if P4 then 1 else 0)"
    unfolding d4_def c4_def P4_def by (rule div_step) simp
  have s100: "d100 - c100 = (if P100 then 1 else 0)"
    unfolding d100_def c100_def P100_def by (rule div_step) simp
  have s400: "d400 - c400 = (if P400 then 1 else 0)"
    unfolding d400_def c400_def P400_def by (rule div_step) simp
  have i1: "P400 \<longrightarrow> P100" unfolding P400_def P100_def using mod_400_100 by (rule impI)
  have i2: "P100 \<longrightarrow> P4" unfolding P100_def P4_def using mod_100_4 by (rule impI)
  have e1: "days_before_year (y + 1) = 365 * y + d4 - d100 + d400"
    unfolding days_before_year_def d4_def d100_def d400_def by simp
  have e0: "days_before_year y = 365 * (y - 1) + c4 - c100 + c400"
    unfolding days_before_year_def c4_def c100_def c400_def by (rule refl)
  have l: "leap_year y \<longleftrightarrow> P4 \<and> (\<not> P100 \<or> P400)"
    unfolding leap_year_def P4_def P100_def P400_def by (rule refl)
  show ?thesis
    unfolding e1 e0 l using s4 s100 s400 i1 i2
    by (cases P4; cases P100; cases P400) simp_all
qed

lemma days_before_month_offset:
  assumes "1 \<le> m" and "m \<le> 12"
  shows "days_before_month y m =
           (if m \<le> 2 then march_offset m - 306
            else march_offset m + 59 + (if leap_year y then 1 else 0))"
proof -
  from assms consider "m = 1" | "m = 2" | "m = 3" | "m = 4" | "m = 5" | "m = 6" | "m = 7"
    | "m = 8" | "m = 9" | "m = 10" | "m = 11" | "m = 12"
    by atomize_elim presburger
  then show ?thesis
    by cases (simp_all add: days_before_month_def days_in_month_def march_offset_def upto.simps)
qed

lemma civil_from_days_correct:
  "valid_date (civil_from_days z) \<and> day_number (civil_from_days z) = z"
proof -
  obtain y0 doy where yd: "year_day z = (y0, doy)" by (cases "year_day z") auto
  obtain m d where md: "month_day doy = (m, d)" by (cases "month_day doy") auto
  from year_day_facts [OF yd] obtain a b c e where
    y0: "y0 = 400 * a + 100 * b + 4 * c + e"
    and b: "0 \<le> b" "b \<le> 3" and c: "0 \<le> c" "c \<le> 24" and e: "0 \<le> e" "e \<le> 3"
    and doy: "0 \<le> doy" "doy \<le> 365"
    and last: "doy = 365 \<longrightarrow> e = 3 \<and> (c \<noteq> 24 \<or> b = 3)"
    and n: "z + 719468 = 146097 * a + 36524 * b + 1461 * c + 365 * e + doy"
    by blast
  from month_day_facts [OF doy md] have
    m: "1 \<le> m" "m \<le> 12" and d1: "1 \<le> d" and off: "doy = march_offset m + d - 1"
    and dmax: "d \<le> (if m = 2 then (if doy = 365 then 29 else 28)
               else if m = 4 \<or> m = 6 \<or> m = 9 \<or> m = 11 then 30 else 31)"
    by simp_all
  define y where "y = (if m \<le> 2 then y0 + 1 else y0)"
  have cfd: "civil_from_days z = (y, m, d)"
    by (simp add: civil_from_days_def yd md y_def)
  have next_year: "days_before_year (y0 + 1) = 365 * y0 + 97 * a + 24 * b + c"
    using b c e y0 by (rule days_before_next_year)
  have feb: "m = 2 \<Longrightarrow> doy = 365 \<Longrightarrow> leap_year y"
  proof -
    assume "m = 2" and "doy = 365"
    with last have e3: "e = 3" and cb: "c \<noteq> 24 \<or> b = 3" by simp_all
    from \<open>m = 2\<close> have yy: "y = 400 * a + 100 * b + 4 * (c + 1)"
      by (simp add: y_def y0 e3)
    have m4: "y mod 4 = 0"
    proof -
      have "y = 4 * (100 * a + 25 * b + (c + 1))" by (simp add: yy)
      then show ?thesis by simp
    qed
    show "leap_year y"
    proof (cases "c = 24")
      case True
      with cb have "b = 3" by simp
      with True have "y = 400 * (a + 1)" by (simp add: yy)
      then have "y mod 400 = 0" by simp
      with m4 show ?thesis by (simp add: leap_year_def)
    next
      case False
      with c have c23: "c \<le> 23" by simp
      have "y mod 100 = y - 100 * (4 * a + b)"
        by (rule mod_unique_int) (use b c c23 in \<open>simp_all add: yy\<close>)
      then have "y mod 100 = 4 * (c + 1)" by (simp add: yy)
      with c have "y mod 100 \<noteq> 0" by simp
      with m4 show ?thesis by (simp add: leap_year_def)
    qed
  qed
  have valid: "d \<le> days_in_month y m"
  proof (cases "m = 2")
    case True
    show ?thesis
    proof (cases "doy = 365")
      case True
      with \<open>m = 2\<close> feb have "leap_year y" by simp
      with dmax \<open>m = 2\<close> True show ?thesis by (simp add: days_in_month_def)
    next
      case False
      with dmax \<open>m = 2\<close> show ?thesis by (simp add: days_in_month_def)
    qed
  next
    case False
    with dmax show ?thesis by (simp add: days_in_month_def)
  qed
  have num: "day_number (y, m, d) = z"
  proof (cases "m \<le> 2")
    case True
    then have "y = y0 + 1" by (simp add: y_def)
    with True m next_year off n y0 show ?thesis
      by (simp add: day_number_def days_before_month_offset)
  next
    case False
    then have yy: "y = y0" by (simp add: y_def)
    from leap_step [of y0] next_year have
      "days_before_year y0 + (if leap_year y0 then 1 else 0) = 365 * y0 + 97 * a + 24 * b + c - 365"
      by simp
    with False m off n y0 yy show ?thesis
      by (simp add: day_number_def days_before_month_offset)
  qed
  from m d1 valid num show ?thesis by (simp add: cfd valid_date_def)
qed

lemma march_offset_split:
  assumes "1 \<le> m" and "m \<le> 12"
  shows "(m \<le> 2 \<longrightarrow> 306 \<le> march_offset m) \<and> (2 < m \<longrightarrow> march_offset m \<le> 275)"
proof -
  from assms consider "m = 1" | "m = 2" | "m = 3" | "m = 4" | "m = 5" | "m = 6" | "m = 7"
    | "m = 8" | "m = 9" | "m = 10" | "m = 11" | "m = 12"
    by atomize_elim presburger
  then show ?thesis by cases (simp_all add: march_offset_def)
qed

lemma civil_from_days_year_range:
  assumes "- 719162 \<le> z" and "z \<le> 2932896"
  shows "1 \<le> fst (civil_from_days z) \<and> fst (civil_from_days z) \<le> 9999"
proof -
  obtain y0 doy where yd: "year_day z = (y0, doy)" by (cases "year_day z") auto
  obtain m d where md: "month_day doy = (m, d)" by (cases "month_day doy") auto
  from year_day_facts [OF yd] obtain a b c e where
    y0: "y0 = 400 * a + 100 * b + 4 * c + e"
    and b: "0 \<le> b" "b \<le> 3" and c: "0 \<le> c" "c \<le> 24" and e: "0 \<le> e" "e \<le> 3"
    and doy: "0 \<le> doy" "doy \<le> 365"
    and n: "z + 719468 = 146097 * a + 36524 * b + 1461 * c + 365 * e + doy"
    by blast
  from month_day_facts [OF doy md] have
    m: "1 \<le> m" "m \<le> 12" and d1: "1 \<le> d" and off: "doy = march_offset m + d - 1"
    and dmax: "d \<le> (if m = 2 then (if doy = 365 then 29 else 28)
               else if m = 4 \<or> m = 6 \<or> m = 9 \<or> m = 11 then 30 else 31)"
    by simp_all
  from dmax have d31: "d \<le> 31" by (simp split: if_splits)
  have year: "fst (civil_from_days z) = (if m \<le> 2 then y0 + 1 else y0)"
    by (simp add: civil_from_days_def yd md)
  from n assms have lo: "306 \<le> 146097 * a + 36524 * b + 1461 * c + 365 * e + doy"
    and hi: "146097 * a + 36524 * b + 1461 * c + 365 * e + doy \<le> 3652364"
    by linarith+
  from lo b c e doy have a0: "0 \<le> a" by linarith
  from hi b c e doy have a24: "a \<le> 24" by linarith
  show ?thesis
  proof (cases "m \<le> 2")
    case True
    with march_offset_split [OF m] off d1 have late: "306 \<le> doy" by simp
    from a0 b c e have "0 \<le> y0" by (simp add: y0)
    moreover have "y0 \<le> 9998"
    proof (rule ccontr)
      assume "\<not> y0 \<le> 9998"
      then have big: "9999 \<le> 400 * a + 100 * b + 4 * c + e" by (simp add: y0)
      with a24 b c e have "a = 24" "b = 3" "c = 24" "e = 3" by linarith+
      with hi late show False by simp
    qed
    ultimately show ?thesis using True by (simp add: year)
  next
    case False
    with march_offset_split [OF m] off d31 have early: "doy \<le> 305" by simp
    have "1 \<le> y0"
    proof (rule ccontr)
      assume "\<not> 1 \<le> y0"
      then have "400 * a + 100 * b + 4 * c + e \<le> 0" by (simp add: y0)
      with a0 b c e have "a = 0" "b = 0" "c = 0" "e = 0" by linarith+
      with lo early show False by simp
    qed
    moreover from a24 b c e have "y0 \<le> 9999" by (simp add: y0)
    ultimately show ?thesis using False by (simp add: year)
  qed
qed

lemma local_date_year_range:
  assumes "- 62135596800 \<le> t + utcoffset w t" and "t + utcoffset w t \<le> 253402300799"
  shows "1 \<le> fst (local_date w t) \<and> fst (local_date w t) \<le> 9999"
proof -
  have "(- 62135596800) div 86400 \<le> (t + utcoffset w t) div 86400"
    using assms(1) by (rule zdiv_mono1) simp
  then have lo: "- 719162 \<le> (t + utcoffset w t) div 86400" by simp
  have "(t + utcoffset w t) div 86400 \<le> 253402300799 div 86400"
    using assms(2) by (rule zdiv_mono1) simp
  then have hi: "(t + utcoffset w t) div 86400 \<le> 2932896" by simp
  from civil_from_days_year_range [OF lo hi] show ?thesis by (simp add: local_date_def)
qed

lemma civil_from_days_year_1000:
  assumes "- 354285 \<le> z"
  shows "1000 \<le> fst (civil_from_days z)"
proof -
  obtain y0 doy where yd: "year_day z = (y0, doy)" by (cases "year_day z") auto
  obtain m d where md: "month_day doy = (m, d)" by (cases "month_day doy") auto
  from year_day_facts [OF yd] obtain a b c e where
    y0: "y0 = 400 * a + 100 * b + 4 * c + e"
    and b: "0 \<le> b" "b \<le> 3" and c: "0 \<le> c" "c \<le> 24" and e: "0 \<le> e" "e \<le> 3"
    and doy: "0 \<le> doy" "doy \<le> 365"
    and n: "z + 719468 = 146097 * a + 36524 * b + 1461 * c + 365 * e + doy"
    by blast
  from month_day_facts [OF doy md] have
    m: "1 \<le> m" "m \<le> 12" and d1: "1 \<le> d" and off: "doy = march_offset m + d - 1"
    and dmax: "d \<le> (if m = 2 then (if doy = 365 then 29 else 28)
               else if m = 4 \<or> m = 6 \<or> m = 9 \<or> m = 11 then 30 else 31)"
    by simp_all
  from dmax have d31: "d \<le> 31" by (simp split: if_splits)
  have year: "fst (civil_from_days z) = (if m \<le> 2 then y0 + 1 else y0)"
    by (simp add: civil_from_days_def yd md)
  from n assms have lo: "365183 \<le> 146097 * a + 36524 * b + 1461 * c + 365 * e + doy"
    by linarith
  from lo b c e doy have a2: "2 \<le> a" by linarith
  show ?thesis
  proof (cases "3 \<le> a")
    case True
    with b c e have "1200 \<le> y0" by (simp add: y0)
    then show ?thesis by (simp add: year)
  next
    case False
    with a2 have a: "a = 2" by simp
    from lo b c e doy have b1: "1 \<le> b" unfolding a by linarith
    show ?thesis
    proof (cases "2 \<le> b")
      case True
      with c e have "1000 \<le> y0" by (simp add: y0 a)
      then show ?thesis by (simp add: year)
    next
      case False
      with b1 have b': "b = 1" by simp
      from lo c e doy have ce: "c = 24" "e = 3" unfolding a b' by linarith+
      then have y999: "y0 = 999" by (simp add: y0 a b')
      show ?thesis
      proof (cases "m \<le> 2")
        case True
        with y999 show ?thesis by (simp add: year)
      next
        case False
        with march_offset_split [OF m] off d31 have early: "doy \<le> 305" by simp
        with lo show ?thesis unfolding a b' ce by simp
      qed
    qed
  qed
qed

lemma local_date_year_1000:
  assumes "- 30610224000 \<le> t + utcoffset w t"
  shows "1000 \<le> fst (local_date w t)"
proof -
  have "(- 30610224000) div 86400 \<le> (t + utcoffset w t) div 86400"
    using assms by (rule zdiv_mono1) simp
  then have "- 354285 \<le> (t + utcoffset w t) div 86400" by simp
  from civil_from_days_year_1000 [OF this] show ?thesis by (simp add: local_date_def)
qed

lemma digit_value_digit: "digit_value (digit n) = n mod 10"
proof -
  have "0 \<le> n mod 10" "n mod 10 < 10" by simp_all
  then consider "n mod 10 = 0" | "n mod 10 = 1" | "n mod 10 = 2" | "n mod 10 = 3"
    | "n mod 10 = 4" | "n mod 10 = 5" | "n mod 10 = 6" | "n mod 10 = 7" | "n mod 10 = 8"
    | "n mod 10 = 9"
    by atomize_elim presburger
  then show ?thesis
    by cases (simp_all add: digit_def digit_value_def)
qed

lemma strftime_ymd_reads_back:
  assumes "1000 \<le> y" "y \<le> 9999" "0 \<le> m" "m \<le> 99" "0 \<le> d" "d \<le> 99"
  shows "length (strftime_ymd w (y, m, d)) = 10 \<and>
         strftime_ymd w (y, m, d) ! 4 = CHR ''-'' \<and> strftime_ymd w (y, m, d) ! 7 = CHR ''-'' \<and>
         decimal (take 4 (strftime_ymd w (y, m, d))) = y \<and>
         decimal (take 2 (drop 5 (strftime_ymd w (y, m, d)))) = m \<and>
         decimal (drop 8 (strftime_ymd w (y, m, d))) = d"
proof -
  have two: "\<And>k::int. 0 \<le> k \<Longrightarrow> k \<le> 99 \<Longrightarrow> 10 * (k div 10 mod 10) + k mod 10 = k"
  proof -
    fix k :: int assume "0 \<le> k" "k \<le> 99"
    then have "k div 10 < 10" by simp
    moreover from \<open>0 \<le> k\<close> have "0 \<le> k div 10" by simp
    ultimately have "k div 10 mod 10 = k div 10" by simp
    then show "10 * (k div 10 mod 10) + k mod 10 = k" by simp
  qed
  have four: "10 * (10 * (10 * (y div 1000 mod 10) + y div 100 mod 10) + y div 10 mod 10)
                + y mod 10 = y"
  proof -
    define q1 where "q1 = y div 10"
    define q2 where "q2 = q1 div 10"
    define q3 where "q3 = q2 div 10"
    have e2: "y div 100 = q2" unfolding q2_def q1_def by (simp add: div_mult2_eq [symmetric])
    have e3: "y div 1000 = q3"
      unfolding q3_def q2_def q1_def by (simp add: div_mult2_eq [symmetric])
    have "0 \<le> q3" "q3 < 10" using assms(1,2) unfolding e3 [symmetric] by simp_all
    then have r3: "q3 mod 10 = q3" by simp
    have s1: "10 * q1 + y mod 10 = y" unfolding q1_def by simp
    have s2: "10 * q2 + q1 mod 10 = q1" unfolding q2_def by simp
    have s3: "10 * q3 + q2 mod 10 = q2" unfolding q3_def by simp
    show ?thesis unfolding e2 e3 r3 q1_def [symmetric] s3 s2 s1 by (rule refl)
  qed
  have form: "strftime_ymd w (y, m, d) =
      [digit (y div 1000), digit (y div 100), digit (y div 10), digit y, CHR ''-'',
       digit (m div 10), digit m, CHR ''-'', digit (d div 10), digit d]"
    using assms(1) by (simp add: strftime_ymd_def)
  show ?thesis
    unfolding form using two [OF assms(3,4)] two [OF assms(5,6)] four
    by (simp add: decimal_def digit_value_digit)
qed

lemma is_digit_digit: "is_digit (digit n)"
proof -
  have "nat (n mod 10) < length ''0123456789''" by simp
  then show ?thesis unfolding digit_def is_digit_def by (rule nth_mem)
qed

lemma strftime_ymd_shape: "1000 \<le> y \<Longrightarrow> ymd_shape (strftime_ymd w (y, m, d))"
  by (simp add: ymd_shape_def strftime_ymd_def is_digit_digit)

lemma strftime_local_date:
  assumes "- 30610224000 \<le> t + utcoffset w t" and "t + utcoffset w t \<le> 253402300799"
  shows "ymd_shape (strftime_ymd w (local_date w t)) \<and>
         valid_date (parse_ymd (strftime_ymd w (local_date w t))) \<and>
         day_number (parse_ymd (strftime_ymd w (local_date w t))) = (t + utcoffset w t) div 86400"
proof -
  obtain y m d where ld: "local_date w t = (y, m, d)" by (cases "local_date w t") auto
  from assms(1) have "- 62135596800 \<le> t + utcoffset w t" by simp
  from local_date_year_range [OF this assms(2)] ld have y9: "y \<le> 9999" by simp
  from local_date_year_1000 [OF assms(1)] ld have y1: "1000 \<le> y" by simp
  note y = y1 y9
  from civil_from_days_correct [of "(t + utcoffset w t) div 86400"] ld
  have v: "valid_date (y, m, d)" and n: "day_number (y, m, d) = (t + utcoffset w t) div 86400"
    by (simp_all add: local_date_def)
  from v have m: "1 \<le> m" "m \<le> 12" and d: "1 \<le> d" "d \<le> days_in_month y m"
    by (simp_all add: valid_date_def)
  have "days_in_month y m \<le> 31" by (simp add: days_in_month_def)
  with d have d31: "d \<le> 31" by simp
  have "parse_ymd (strftime_ymd w (y, m, d)) = (y, m, d)"
    using strftime_ymd_reads_back [of y m d w] y m d(1) d31 by (simp add: parse_ymd_def)
  with v n y1 show ?thesis by (simp add: ld strftime_ymd_shape)
qed

lemma forecast_entry_ok:
  assumes "daily_entry_ok w day"
  shows "forecast_entry w day = Inr (daily_record w day)"
proof -
  from assms obtain t temp where dt: "field day ''dt'' = Some (JInt t)"
    and range: "- 30610224000 \<le> t + utcoffset w t" "t + utcoffset w t \<le> 253402300799"
    and probe: "- 62135596800 \<le> t - 86400 + utcoffset w (t - 86400)"
      "t - 86400 + utcoffset w (t - 86400) \<le> 253402300799"
    and temp: "field day ''temp'' = Some temp" "is_object temp"
    by (auto simp: daily_entry_ok_def split: option.splits json.splits)
  from dt have obj: "is_object day" by (cases day) simp_all
  have g1: "py_get day ''dt'' = Inr (JInt t)"
    using obj dt by (simp add: py_get_object value_of_def)
  have g2: "py_get day ''temp'' = Inr temp"
    using obj temp(1) by (simp add: py_get_object value_of_def)
  from range(1) have "- 62135596800 \<le> t + utcoffset w t" by simp
  from local_date_year_range [OF this range(2)] local_date_year_range [OF probe]
  have g3: "fromtimestamp w (JInt t) = Inr (local_date w t)"
    by (simp add: fromtimestamp_def)
  have v: "value_of day ''temp'' = temp" using temp(1) by (simp add: value_of_def)
  show ?thesis
    by (simp add: forecast_entry_def g1 g2 g3 py_get_object [OF temp(2)] daily_record_def dt v)
qed

lemma forecast_loop_ok:
  "\<forall>day\<in>set days. daily_entry_ok w day \<Longrightarrow>
   forecast_loop w days forecast_data = Inr (forecast_data @ map (daily_record w) days)"
  by (induction days arbitrary: forecast_data) (simp_all add: forecast_entry_ok)

lemma daily_record_datetime:
  assumes "daily_entry_ok w day"
  shows "\<exists>t s. field day ''dt'' = Some (JInt t) \<and>
           daily_record w day =
             JObj [(''datetime'', JStr s),
                   (''temp_min'', value_of (value_of day ''temp'') ''min''),
                   (''temp_max'', value_of (value_of day ''temp'') ''max'')] \<and>
           ymd_shape s \<and> valid_date (parse_ymd s) \<and>
           day_number (parse_ymd s) = (t + utcoffset w t) div 86400"
proof -
  from assms obtain t where dt: "field day ''dt'' = Some (JInt t)"
    and range: "- 30610224000 \<le> t + utcoffset w t" "t + utcoffset w t \<le> 253402300799"
    by (auto simp: daily_entry_ok_def split: option.splits json.splits)
  from strftime_local_date [OF range] dt show ?thesis
    by (simp add: daily_record_def)
qed

section \<open>Properties of the resolver\<close>

text \<open>
  Claim C1, as amended. For every successful place-search response whose payload is a
  non-empty array of objects, the resolver outputs, in the upstream's order, exactly the
  results whose \<^verbatim>\<open>id\<close>, \<^verbatim>\<open>lat\<close> and \<^verbatim>\<open>long\<close> are all present and truthy, each
  projected to the four fields \<^verbatim>\<open>id\<close>, \<^verbatim>\<open>lat\<close>, \<^verbatim>\<open>long\<close>, \<^verbatim>\<open>city_name\<close>; the
  \<^verbatim>\<open>city_name\<close> is passed through unfiltered, null when absent. Every output candidate
  is the projection of an input result that has all three fields.
\<close>

theorem resolver_keeps_usable_results:
  assumes "fetch (places w q) = Inr (JArr rs)" and "rs \<noteq> []" and "\<forall>r\<in>set rs. is_object r"
  shows "get_city_coordinates w q = Inr (JArr (map candidate (filter usable rs))) \<and>
         (\<forall>c\<in>set (map candidate (filter usable rs)).
            \<exists>r\<in>set rs. has_coordinates r \<and> c = candidate r)"
proof
  show "get_city_coordinates w q = Inr (JArr (map candidate (filter usable rs)))"
    using assms by (rule get_city_coordinates_objects)
next
  show "\<forall>c\<in>set (map candidate (filter usable rs)).
          \<exists>r\<in>set rs. has_coordinates r \<and> c = candidate r"
  proof
    fix c assume "c \<in> set (map candidate (filter usable rs))"
    then obtain r where "r \<in> set rs" "usable r" "c = candidate r" by auto
    then show "\<exists>r\<in>set rs. has_coordinates r \<and> c = candidate r"
      using usable_has_coordinates by blast
  qed
qed

text \<open>
  A response with two places, the first with \<^verbatim>\<open>id\<close> 0 and the second without
  \<^verbatim>\<open>city_name\<close>: only the second one is output.
\<close>

theorem resolver_keeps_usable_results_witness:
  "get_city_coordinates
     (sample_world (Reply 200 (Some (JArr
        [JObj [(''id'', JInt 0), (''lat'', JStr ''19.43''), (''long'', JStr ''-99.13''),
               (''city_name'', JStr ''Mexico'')],
         JObj [(''id'', JInt 7), (''lat'', JStr ''20.67''), (''long'', JStr ''-103.35'')]]))) [])
     ''mexico'' =
   Inr (JArr [JObj [(''id'', JInt 7), (''lat'', JStr ''20.67''), (''long'', JStr ''-103.35''),
                    (''city_name'', JNull)]])"
proof -
  let ?rs = "[JObj [(''id'', JInt 0), (''lat'', JStr ''19.43''), (''long'', JStr ''-99.13''),
               (''city_name'', JStr ''Mexico'')],
         JObj [(''id'', JInt 7), (''lat'', JStr ''20.67''), (''long'', JStr ''-103.35'')]]"
  let ?w = "sample_world (Reply 200 (Some (JArr ?rs))) []"
  have h1: "fetch (places ?w ''mexico'') = Inr (JArr ?rs)" by (simp add: sample_world_def)
  have h2: "?rs \<noteq> []" by simp
  have h3: "\<forall>r\<in>set ?rs. is_object r" by simp
  have ev: "map candidate (filter usable ?rs) =
     [JObj [(''id'', JInt 7), (''lat'', JStr ''20.67''), (''long'', JStr ''-103.35''),
                    (''city_name'', JNull)]]"
    by (simp add: usable_def candidate_def value_of_def)
  from resolver_keeps_usable_results [OF h1 h2 h3] show ?thesis
    unfolding ev by (rule conjunct1)
qed

text \<open>
  Presence of the three fields is not enough: a place whose \<^verbatim>\<open>id\<close> is the number 0
  has all three fields and is left out.
\<close>

theorem resolver_presence_counterexample:
  "has_coordinates (JObj [(''id'', JInt 0), (''lat'', JStr ''19.43''), (''long'', JStr ''-99.13''),
                          (''city_name'', JStr ''Mexico'')]) \<and>
   get_city_coordinates
     (sample_world (Reply 200 (Some (JArr
        [JObj [(''id'', JInt 0), (''lat'', JStr ''19.43''), (''long'', JStr ''-99.13''),
               (''city_name'', JStr ''Mexico'')]]))) [])
     ''mexico'' = Inr (JArr [])"
  by (simp add: has_coordinates_def get_city_coordinates_def sample_world_def coordinates_entry_def)

text \<open>
  Claim C2, as amended. When the place-search API returns an empty array, the resolver
  returns the empty dict \<^verbatim>\<open>{}\<close>: an empty, falsy value without candidates, though
  not a list.
\<close>

theorem resolver_no_matches_empty_dict:
  "fetch (places w q) = Inr (JArr []) \<Longrightarrow> get_city_coordinates w q = Inr (JObj [])"
  by (simp add: get_city_coordinates_def)

text \<open>
  The scenario of the unknown city.
\<close>

theorem resolver_no_matches_empty_dict_witness:
  "get_city_coordinates (sample_world (Reply 200 (Some (JArr []))) []) ''Nonexistentville123''
     = Inr (JObj [])"
proof -
  have h: "fetch (places (sample_world (Reply 200 (Some (JArr []))) []) ''Nonexistentville123'')
           = Inr (JArr [])"
    by (simp add: sample_world_def)
  from resolver_no_matches_empty_dict [OF h] show ?thesis .
qed

text \<open>
  The value returned for an empty array is not the empty list.
\<close>

theorem resolver_no_matches_counterexample:
  "get_city_coordinates (sample_world (Reply 200 (Some (JArr []))) []) ''Nonexistentville123''
     \<noteq> Inr (JArr [])"
  by (simp add: get_city_coordinates_def sample_world_def)

text \<open>
  Claim C10, as amended. The filter of the resolver tests truthiness, not presence: for
  a successful response whose payload is a non-empty array of objects, no output
  candidate is the projection of a result whose \<^verbatim>\<open>id\<close>, \<^verbatim>\<open>lat\<close> or \<^verbatim>\<open>long\<close> is
  falsy (0, empty string, null, or missing), while a result whose three fields are
  truthy is kept whatever its \<^verbatim>\<open>city_name\<close>, which is passed through unchanged: null
  when it is absent or null, the value itself otherwise, also when it is falsy.
\<close>

theorem resolver_tests_truthiness:
  assumes "fetch (places w q) = Inr (JArr rs)" and "rs \<noteq> []" and "\<forall>r\<in>set rs. is_object r"
  shows "\<exists>out. get_city_coordinates w q = Inr (JArr out) \<and>
           (\<forall>r\<in>set rs. \<not> truthy (value_of r ''id'') \<or> \<not> truthy (value_of r ''lat'') \<or>
                         \<not> truthy (value_of r ''long'') \<longrightarrow> candidate r \<notin> set out) \<and>
           (\<forall>r\<in>set rs. usable r \<longrightarrow>
              (\<exists>c\<in>set out. c = candidate r \<and>
                 py_get c ''city_name'' = Inr (value_of r ''city_name'')))"
proof -
  let ?out = "map candidate (filter usable rs)"
  have out: "get_city_coordinates w q = Inr (JArr ?out)"
    using assms by (rule get_city_coordinates_objects)
  have excl: "\<forall>r\<in>set rs. \<not> truthy (value_of r ''id'') \<or> \<not> truthy (value_of r ''lat'') \<or>
                         \<not> truthy (value_of r ''long'') \<longrightarrow> candidate r \<notin> set ?out"
  proof (intro ballI impI notI)
    fix r assume bad: "\<not> truthy (value_of r ''id'') \<or> \<not> truthy (value_of r ''lat'') \<or>
                         \<not> truthy (value_of r ''long'')"
      and "candidate r \<in> set ?out"
    then obtain r' where r': "usable r'" "candidate r = candidate r'" by auto
    from r'(2) have "value_of r ''id'' = value_of r' ''id''"
      "value_of r ''lat'' = value_of r' ''lat''" "value_of r ''long'' = value_of r' ''long''"
      by (simp_all add: candidate_def)
    with r'(1) bad show False by (simp add: usable_def)
  qed
  have kept: "\<forall>r\<in>set rs. usable r \<longrightarrow>
              (\<exists>c\<in>set ?out. c = candidate r \<and>
                 py_get c ''city_name'' = Inr (value_of r ''city_name''))"
  proof (intro ballI impI)
    fix r assume "r \<in> set rs" "usable r"
    then have "candidate r \<in> set ?out" by simp
    moreover have "py_get (candidate r) ''city_name'' = Inr (value_of r ''city_name'')"
      by (simp add: candidate_def)
    ultimately show "\<exists>c\<in>set ?out. c = candidate r \<and>
                 py_get c ''city_name'' = Inr (value_of r ''city_name'')" by blast
  qed
  from out excl kept show ?thesis by blast
qed

text \<open>
  A place with an empty \<^verbatim>\<open>id\<close> is dropped; a place with \<^verbatim>\<open>city_name\<close> 0 is kept
  with that \<^verbatim>\<open>city_name\<close>.
\<close>

theorem resolver_tests_truthiness_witness:
  "\<exists>out. get_city_coordinates
           (sample_world (Reply 200 (Some (JArr
              [JObj [(''id'', JStr []), (''lat'', JStr ''19.43''), (''long'', JStr ''-99.13'')],
               JObj [(''id'', JInt 7), (''lat'', JStr ''20.67''), (''long'', JStr ''-103.35''),
                     (''city_name'', JInt 0)]]))) [])
           ''mexico'' = Inr (JArr out) \<and>
         JObj [(''id'', JStr []), (''lat'', JStr ''19.43''), (''long'', JStr ''-99.13''),
               (''city_name'', JNull)] \<notin> set out \<and>
         JObj [(''id'', JInt 7), (''lat'', JStr ''20.67''), (''long'', JStr ''-103.35''),
               (''city_name'', JInt 0)] \<in> set out"
proof -
  let ?bad = "JObj [(''id'', JStr []), (''lat'', JStr ''19.43''), (''long'', JStr ''-99.13'')]"
  let ?good = "JObj [(''id'', JInt 7), (''lat'', JStr ''20.67''), (''long'', JStr ''-103.35''),
                     (''city_name'', JInt 0)]"
  let ?w = "sample_world (Reply 200 (Some (JArr [?bad, ?good]))) []"
  have h1: "fetch (places ?w ''mexico'') = Inr (JArr [?bad, ?good])"
    by (simp add: sample_world_def)
  have h2: "[?bad, ?good] \<noteq> []" by simp
  have h3: "\<forall>r\<in>set [?bad, ?good]. is_object r" by simp
  have bad: "\<not> truthy (value_of ?bad ''id'')" by (simp add: value_of_def)
  have good: "usable ?good" by (simp add: usable_def value_of_def)
  have cb: "candidate ?bad = JObj [(''id'', JStr []), (''lat'', JStr ''19.43''),
               (''long'', JStr ''-99.13''), (''city_name'', JNull)]"
    by (simp add: candidate_def value_of_def)
  have cg: "candidate ?good = ?good" by (simp add: candidate_def value_of_def)
  from resolver_tests_truthiness [OF h1 h2 h3] obtain out where
    out: "get_city_coordinates ?w ''mexico'' = Inr (JArr out)"
    and excl: "\<forall>r\<in>set [?bad, ?good]. \<not> truthy (value_of r ''id'') \<or>
                 \<not> truthy (value_of r ''lat'') \<or> \<not> truthy (value_of r ''long'')
                 \<longrightarrow> candidate r \<notin> set out"
    and kept: "\<forall>r\<in>set [?bad, ?good]. usable r \<longrightarrow>
              (\<exists>c\<in>set out. c = candidate r \<and>
                 py_get c ''city_name'' = Inr (value_of r ''city_name''))"
    by blast
  from excl bad have "candidate ?bad \<notin> set out" by simp
  then have 1: "JObj [(''id'', JStr []), (''lat'', JStr ''19.43''),
               (''long'', JStr ''-99.13''), (''city_name'', JNull)] \<notin> set out"
    unfolding cb .
  from kept good have "candidate ?good \<in> set out" by simp
  then have 2: "?good \<in> set out" unfolding cg .
  from out 1 2 show ?thesis by blast
qed

text \<open>
  A falsy \<^verbatim>\<open>city_name\<close> that is present is not replaced by null: the empty string
  stays the empty string.
\<close>

theorem resolver_city_name_counterexample:
  "get_city_coordinates
     (sample_world (Reply 200 (Some (JArr
        [JObj [(''id'', JInt 7), (''lat'', JStr ''20.67''), (''long'', JStr ''-103.35''),
               (''city_name'', JStr [])]]))) [])
     ''guadalajara'' =
   Inr (JArr [JObj [(''id'', JInt 7), (''lat'', JStr ''20.67''), (''long'', JStr ''-103.35''),
                    (''city_name'', JStr [])]]) \<and>
   \<not> truthy (JStr []) \<and> JStr [] \<noteq> JNull"
  by (simp add: get_city_coordinates_def sample_world_def coordinates_entry_def)

section \<open>Properties of the fetcher\<close>

text \<open>
  Claim C9, as amended. For every successful weather response whose payload is an
  object with a \<^verbatim>\<open>daily\<close> array in which every entry is an object with an integer
  timestamp \<^verbatim>\<open>dt\<close> (of a local time in the years 1000 to 9999, the local time 24
  hours earlier being in the years 1 to 9999) and an object \<^verbatim>\<open>temp\<close>, the fetcher
  returns one record per entry, in the upstream's order, of the form
  \<^verbatim>\<open>{datetime, temp_min, temp_max}\<close>: the two temperatures are the \<^verbatim>\<open>min\<close> and
  \<^verbatim>\<open>max\<close> of \<^verbatim>\<open>temp\<close> (null when missing), and \<^verbatim>\<open>datetime\<close> is a string of the
  shape \<^verbatim>\<open>YYYY-MM-DD\<close> that denotes the valid calendar date of the day that contains
  the timestamp in the server's local time. If the payload is empty, or is an object
  without a \<^verbatim>\<open>daily\<close> section (or with a null or empty one), the fetcher returns an
  empty list.
\<close>

theorem fetcher_daily_records:
  assumes "fetch (onecall w i lat long) = Inr data"
  shows "(is_object data \<and> field data ''daily'' = Some (JArr days) \<and>
          (\<forall>day\<in>set days. daily_entry_ok w day) \<longrightarrow>
            get_city_weather w i lat long = Inr (JArr (map (daily_record w) days)) \<and>
            (\<forall>day\<in>set days. \<exists>t s.
               field day ''dt'' = Some (JInt t) \<and>
               daily_record w day =
                 JObj [(''datetime'', JStr s),
                       (''temp_min'', value_of (value_of day ''temp'') ''min''),
                       (''temp_max'', value_of (value_of day ''temp'') ''max'')] \<and>
               ymd_shape s \<and> valid_date (parse_ymd s) \<and>
               day_number (parse_ymd s) = (t + utcoffset w t) div 86400)) \<and>
         (\<not> truthy data \<or> is_object data \<and> \<not> truthy (value_of data ''daily'') \<longrightarrow>
            get_city_weather w i lat long = Inr (JArr []))"
proof (intro conjI impI)
  assume a: "is_object data \<and> field data ''daily'' = Some (JArr days) \<and>
          (\<forall>day\<in>set days. daily_entry_ok w day)"
  then have daily: "py_get data ''daily'' = Inr (JArr days)"
    by (simp add: py_get_object value_of_def)
  show "get_city_weather w i lat long = Inr (JArr (map (daily_record w) days))"
  proof (cases "days = []")
    case True
    with assms daily show ?thesis by (simp add: get_city_weather_def)
  next
    case False
    from a have "truthy data" by (cases data) auto
    with False assms daily a show ?thesis
      by (simp add: get_city_weather_def forecast_loop_ok)
  qed
  from a show "\<forall>day\<in>set days. \<exists>t s.
               field day ''dt'' = Some (JInt t) \<and>
               daily_record w day =
                 JObj [(''datetime'', JStr s),
                       (''temp_min'', value_of (value_of day ''temp'') ''min''),
                       (''temp_max'', value_of (value_of day ''temp'') ''max'')] \<and>
               ymd_shape s \<and> valid_date (parse_ymd s) \<and>
               day_number (parse_ymd s) = (t + utcoffset w t) div 86400"
    using daily_record_datetime by blast
next
  assume "\<not> truthy data \<or> is_object data \<and> \<not> truthy (value_of data ''daily'')"
  with assms show "get_city_weather w i lat long = Inr (JArr [])"
    by (auto simp: get_city_weather_def py_get_object)
qed

text \<open>
  Two daily entries, the second past midnight in UTC but not on the server, which is
  six hours behind, and without a minimum; and a payload without a \<^verbatim>\<open>daily\<close>
  section.
\<close>

theorem fetcher_daily_records_witness:
  "get_city_weather
     (sample_world NoReply
        [Reply 200 (Some (JObj [(''timezone'', JStr ''America/Mexico_City''),
           (''daily'', JArr
              [JObj [(''dt'', JInt 1700000000),
                     (''temp'', JObj [(''min'', JFloat 10.5), (''max'', JInt 25)])],
               JObj [(''dt'', JInt 1700010000),
                     (''temp'', JObj [(''max'', JInt 24)])]])])),
         Reply 200 (Some (JObj [(''timezone'', JStr ''America/Mexico_City'')]))])
     0 (JStr ''20.67'') (JStr ''-103.35'') =
   Inr (JArr [JObj [(''datetime'', JStr ''2023-11-14''),
                    (''temp_min'', JFloat 10.5), (''temp_max'', JInt 25)],
              JObj [(''datetime'', JStr ''2023-11-14''),
                    (''temp_min'', JNull), (''temp_max'', JInt 24)]]) \<and>
   get_city_weather
     (sample_world NoReply
        [Reply 200 (Some (JObj [(''timezone'', JStr ''America/Mexico_City''),
           (''daily'', JArr
              [JObj [(''dt'', JInt 1700000000),
                     (''temp'', JObj [(''min'', JFloat 10.5), (''max'', JInt 25)])],
               JObj [(''dt'', JInt 1700010000),
                     (''temp'', JObj [(''max'', JInt 24)])]])])),
         Reply 200 (Some (JObj [(''timezone'', JStr ''America/Mexico_City'')]))])
     1 (JStr ''20.67'') (JStr ''-103.35'') = Inr (JArr [])"
proof -
  let ?days = "[JObj [(''dt'', JInt 1700000000),
                     (''temp'', JObj [(''min'', JFloat 10.5), (''max'', JInt 25)])],
               JObj [(''dt'', JInt 1700010000),
                     (''temp'', JObj [(''max'', JInt 24)])]]"
  let ?data0 = "JObj [(''timezone'', JStr ''America/Mexico_City''), (''daily'', JArr ?days)]"
  let ?data1 = "JObj [(''timezone'', JStr ''America/Mexico_City'')]"
  let ?w = "sample_world NoReply [Reply 200 (Some ?data0), Reply 200 (Some ?data1)]"
  have h0: "fetch (onecall ?w 0 (JStr ''20.67'') (JStr ''-103.35'')) = Inr ?data0"
    by (simp add: sample_world_def)
  have h1: "fetch (onecall ?w 1 (JStr ''20.67'') (JStr ''-103.35'')) = Inr ?data1"
    by (simp add: sample_world_def)
  have p0: "is_object ?data0 \<and> field ?data0 ''daily'' = Some (JArr ?days) \<and>
            (\<forall>day\<in>set ?days. daily_entry_ok ?w day)"
    by (simp add: daily_entry_ok_def sample_world_def)
  have p1: "\<not> truthy ?data1 \<or> is_object ?data1 \<and> \<not> truthy (value_of ?data1 ''daily'')"
    by (simp add: value_of_def)
  have ev: "map (daily_record ?w) ?days =
     [JObj [(''datetime'', JStr ''2023-11-14''),
            (''temp_min'', JFloat 10.5), (''temp_max'', JInt 25)],
      JObj [(''datetime'', JStr ''2023-11-14''),
            (''temp_min'', JNull), (''temp_max'', JInt 24)]]"
    by code_simp
  from fetcher_daily_records [OF h0, of ?days] p0
  have r0: "get_city_weather ?w 0 (JStr ''20.67'') (JStr ''-103.35'') =
              Inr (JArr (map (daily_record ?w) ?days))"
    by blast
  from fetcher_daily_records [OF h1, of "[]"] p1
  have r1: "get_city_weather ?w 1 (JStr ''20.67'') (JStr ''-103.35'') = Inr (JArr [])"
    by blast
  from r0 r1 show ?thesis unfolding ev by (rule conjI)
qed

text \<open>
  Not every successful response is converted: for a daily entry without \<^verbatim>\<open>temp\<close>
  the call \<^verbatim>\<open>day.get('temp').get('min')\<close> raises and no record is returned.
\<close>

theorem fetcher_missing_temp_counterexample:
  "get_city_weather
     (sample_world NoReply
        [Reply 200 (Some (JObj [(''daily'', JArr [JObj [(''dt'', JInt 1700000000)]])]))])
     0 (JStr ''20.67'') (JStr ''-103.35'') = Inl AttributeError"
  by code_simp

section \<open>Properties of the aggregator\<close>

text \<open>
  Claim C4. For every city name for which the resolver yields no candidates, the
  aggregator returns an empty list at once: its trace holds the call of the resolver
  and no call of the fetcher.
\<close>

theorem aggregator_no_candidates:
  assumes "get_city_coordinates w c = Inr cc" and "py_iter cc = Inr []"
  shows "get_city_and_weather_info w c = (Inr [], [ResolverCall c]) \<and>
         filter is_fetcher_call (snd (get_city_and_weather_info w c)) = []"
proof -
  from assms(2) have "\<not> truthy cc" by (rule py_iter_empty_falsy)
  with assms(1) have "get_city_and_weather_info w c = (Inr [], [ResolverCall c])"
    by (simp add: get_city_and_weather_info_def)
  then show ?thesis by simp
qed

text \<open>
  A place search whose only result has a null latitude: the resolver filters it out
  and no weather is fetched.
\<close>

theorem aggregator_no_candidates_witness:
  "get_city_and_weather_info
     (sample_world (Reply 200 (Some (JArr
        [JObj [(''id'', JInt 3), (''lat'', JNull), (''long'', JStr ''-99.13'')]]))) [])
     ''mexico'' = (Inr [], [ResolverCall ''mexico''])"
proof -
  let ?w = "sample_world (Reply 200 (Some (JArr
        [JObj [(''id'', JInt 3), (''lat'', JNull), (''long'', JStr ''-99.13'')]]))) []"
  have h1: "get_city_coordinates ?w ''mexico'' = Inr (JArr [])"
    by (simp add: get_city_coordinates_def sample_world_def coordinates_entry_def)
  have h2: "py_iter (JArr []) = Inr []" by simp
  from aggregator_no_candidates [OF h1 h2] show ?thesis by (rule conjunct1)
qed

lemma aggregator_futures:
  assumes "get_city_coordinates w c = Inr (JArr cs)" and "cs \<noteq> []"
  shows "\<exists>fs. get_city_and_weather_info w c =
            (collect w (as_completed w fs) [], ResolverCall c # fetcher_calls fs) \<and>
          length fs = length cs \<and>
          (\<forall>j<length cs. fs ! j = \<lparr>task = j, city = cs ! j,
              arg_lat = value_of (cs ! j) ''lat'', arg_long = value_of (cs ! j) ''long''\<rparr>) \<and>
          (\<forall>f\<in>set fs. is_object (city f))"
proof -
  from get_city_coordinates_shape [OF assms(1)] have objs: "\<forall>c\<in>set cs. is_object c"
    by simp
  from submit_all_objects [OF objs, of "[]"] obtain fs where
    sub: "submit_all cs [] = (None, fs)" and len: "length fs = length cs"
    and nth: "\<forall>j<length cs. fs ! j = \<lparr>task = j, city = cs ! j,
              arg_lat = value_of (cs ! j) ''lat'', arg_long = value_of (cs ! j) ''long''\<rparr>"
    by auto
  have run: "get_city_and_weather_info w c =
            (collect w (as_completed w fs) [], ResolverCall c # fetcher_calls fs)"
    using assms sub by (simp add: get_city_and_weather_info_def)
  have "\<forall>f\<in>set fs. is_object (city f)"
  proof
    fix f assume "f \<in> set fs"
    then obtain j where j: "j < length fs" "f = fs ! j" by (auto simp: in_set_conv_nth)
    with len nth have "city f = cs ! j" by simp
    with j len objs show "is_object (city f)" by simp
  qed
  with run len nth show ?thesis by blast
qed

text \<open>
  Claim C3. For every aggregation in which the resolver yields at least one candidate
  and every fetch succeeds, the aggregator returns a list with exactly as many items as
  the resolver's candidate list, and the \<^verbatim>\<open>weather\<close> field of every item is a list.
\<close>

theorem aggregation_one_item_per_candidate:
  assumes "get_city_coordinates w c = Inr (JArr cs)" and "cs \<noteq> []"
    and "\<forall>i<length cs. \<exists>v. get_city_weather w i (value_of (cs ! i) ''lat'')
                                 (value_of (cs ! i) ''long'') = Inr v"
  shows "\<exists>out. fst (get_city_and_weather_info w c) = Inr out \<and> length out = length cs \<and>
           (\<forall>item\<in>set out. \<exists>ws. py_get item ''weather'' = Inr (JArr ws))"
proof -
  from aggregator_futures [OF assms(1,2)] obtain fs where
    run: "get_city_and_weather_info w c =
            (collect w (as_completed w fs) [], ResolverCall c # fetcher_calls fs)"
    and len: "length fs = length cs"
    and nth: "\<forall>j<length cs. fs ! j = \<lparr>task = j, city = cs ! j,
              arg_lat = value_of (cs ! j) ''lat'', arg_long = value_of (cs ! j) ''long''\<rparr>"
    and objs: "\<forall>f\<in>set fs. is_object (city f)"
    by blast
  have ok: "\<forall>f\<in>set (as_completed w fs). is_object (city f) \<and> (\<exists>v. future_result w f = Inr v)"
  proof
    fix f assume "f \<in> set (as_completed w fs)"
    then have f: "f \<in> set fs" by (simp add: set_as_completed)
    then obtain j where j: "j < length fs" "f = fs ! j" by (auto simp: in_set_conv_nth)
    with len nth have "future_result w f =
        get_city_weather w j (value_of (cs ! j) ''lat'') (value_of (cs ! j) ''long'')"
      by (simp add: future_result_def)
    with assms(3) j(1) len have "\<exists>v. future_result w f = Inr v" by simp
    with f objs show "is_object (city f) \<and> (\<exists>v. future_result w f = Inr v)" by simp
  qed
  have "\<forall>item\<in>set ([]::json list). \<exists>ws. py_get item ''weather'' = Inr (JArr ws)" by simp
  from collect_succeeds [OF ok this] obtain out where
    "collect w (as_completed w fs) [] = Inr out"
    "length out = length (as_completed w fs)"
    "\<forall>item\<in>set out. \<exists>ws. py_get item ''weather'' = Inr (JArr ws)"
    by auto
  with run len show ?thesis by (simp add: length_as_completed)
qed

text \<open>
  Two candidates, one with a one-day forecast and one whose weather payload is empty:
  two items come back.
\<close>

theorem aggregation_one_item_per_candidate_witness:
  "\<exists>out. fst (get_city_and_weather_info
            (sample_world (Reply 200 (Some (JArr
               [JObj [(''id'', JInt 7), (''lat'', JStr ''20.67''), (''long'', JStr ''-103.35''),
                      (''city_name'', JStr ''Guadalajara'')],
                JObj [(''id'', JInt 8), (''lat'', JStr ''40.63''), (''long'', JStr ''-3.16'')]])))
               [Reply 200 (Some (JObj [(''daily'', JArr
                  [JObj [(''dt'', JInt 1700000000),
                         (''temp'', JObj [(''min'', JInt 11), (''max'', JInt 25)])]])])),
                Reply 200 (Some (JObj []))])
            ''Guadalajara'') = Inr out \<and> length out = 2"
proof -
  let ?c1 = "JObj [(''id'', JInt 7), (''lat'', JStr ''20.67''), (''long'', JStr ''-103.35''),
                   (''city_name'', JStr ''Guadalajara'')]"
  let ?c2 = "JObj [(''id'', JInt 8), (''lat'', JStr ''40.63''), (''long'', JStr ''-3.16''),
                   (''city_name'', JNull)]"
  let ?w = "sample_world (Reply 200 (Some (JArr
               [JObj [(''id'', JInt 7), (''lat'', JStr ''20.67''), (''long'', JStr ''-103.35''),
                      (''city_name'', JStr ''Guadalajara'')],
                JObj [(''id'', JInt 8), (''lat'', JStr ''40.63''), (''long'', JStr ''-3.16'')]])))
               [Reply 200 (Some (JObj [(''daily'', JArr
                  [JObj [(''dt'', JInt 1700000000),
                         (''temp'', JObj [(''min'', JInt 11), (''max'', JInt 25)])]])])),
                Reply 200 (Some (JObj []))]"
  have h1: "get_city_coordinates ?w ''Guadalajara'' = Inr (JArr [?c1, ?c2])"
    by (simp add: get_city_coordinates_def sample_world_def coordinates_entry_def)
  have h2: "[?c1, ?c2] \<noteq> []" by simp
  have f0: "get_city_weather ?w 0 (JStr ''20.67'') (JStr ''-103.35'') =
              Inr (JArr [JObj [(''datetime'', JStr ''2023-11-14''),
                               (''temp_min'', JInt 11), (''temp_max'', JInt 25)]])"
    by code_simp
  have f1: "get_city_weather ?w 1 (JStr ''40.63'') (JStr ''-3.16'') = Inr (JArr [])"
    by code_simp
  have h3: "\<forall>i<length [?c1, ?c2]. \<exists>v. get_city_weather ?w i (value_of ([?c1, ?c2] ! i) ''lat'')
                                 (value_of ([?c1, ?c2] ! i) ''long'') = Inr v"
  proof (intro allI impI)
    fix i assume "i < length [?c1, ?c2]"
    then have "i = 0 \<or> i = 1" by auto
    then show "\<exists>v. get_city_weather ?w i (value_of ([?c1, ?c2] ! i) ''lat'')
                                 (value_of ([?c1, ?c2] ! i) ''long'') = Inr v"
      using f0 f1 by (auto simp: value_of_def)
  qed
  from aggregation_one_item_per_candidate [OF h1 h2 h3] show ?thesis by auto
qed

text \<open>
  Claim C5. If any fetcher call of an aggregation raises, the aggregator raises to its
  caller the exception of a failed fetch; it returns no list, partial or not.
\<close>

theorem aggregation_fails_as_a_whole:
  assumes "get_city_coordinates w c = Inr (JArr cs)" and "i < length cs"
    and "get_city_weather w i (value_of (cs ! i) ''lat'') (value_of (cs ! i) ''long'') = Inl e"
  shows "\<exists>e' j. j < length cs \<and>
           get_city_weather w j (value_of (cs ! j) ''lat'') (value_of (cs ! j) ''long'') = Inl e' \<and>
           fst (get_city_and_weather_info w c) = Inl e'"
proof -
  from assms(2) have "cs \<noteq> []" by auto
  from aggregator_futures [OF assms(1) this] obtain fs where
    run: "get_city_and_weather_info w c =
            (collect w (as_completed w fs) [], ResolverCall c # fetcher_calls fs)"
    and len: "length fs = length cs"
    and nth: "\<forall>j<length cs. fs ! j = \<lparr>task = j, city = cs ! j,
              arg_lat = value_of (cs ! j) ''lat'', arg_long = value_of (cs ! j) ''long''\<rparr>"
    and objs: "\<forall>f\<in>set fs. is_object (city f)"
    by blast
  have res: "\<And>j. j < length cs \<Longrightarrow> future_result w (fs ! j) =
        get_city_weather w j (value_of (cs ! j) ''lat'') (value_of (cs ! j) ''long'')"
    using nth by (simp add: future_result_def)
  from assms(2) len have mem: "fs ! i \<in> set (as_completed w fs)"
    by (simp add: set_as_completed)
  from res [OF assms(2)] assms(3) have bad: "future_result w (fs ! i) = Inl e" by simp
  from objs have "\<forall>g\<in>set (as_completed w fs). is_object (city g)"
    by (simp add: set_as_completed)
  from collect_fails [OF mem bad this, of "[]"] obtain e' g where
    g: "g \<in> set (as_completed w fs)" "future_result w g = Inl e'"
    and fail: "collect w (as_completed w fs) [] = Inl e'"
    by blast
  from g(1) obtain j where j: "j < length fs" "g = fs ! j"
    by (auto simp: set_as_completed in_set_conv_nth)
  with len res [of j] g(2) have
    "get_city_weather w j (value_of (cs ! j) ''lat'') (value_of (cs ! j) ''long'') = Inl e'"
    by simp
  with j(1) len run fail show ?thesis by auto
qed

text \<open>
  Two candidates; the first fetch succeeds and the second gets no response: the
  aggregation raises.
\<close>

theorem aggregation_fails_as_a_whole_witness:
  "fst (get_city_and_weather_info
          (sample_world (Reply 200 (Some (JArr
             [JObj [(''id'', JInt 7), (''lat'', JStr ''20.67''), (''long'', JStr ''-103.35''),
                    (''city_name'', JStr ''Guadalajara'')],
              JObj [(''id'', JInt 8), (''lat'', JStr ''40.63''), (''long'', JStr ''-3.16'')]])))
             [Reply 200 (Some (JObj [])), NoReply])
          ''Guadalajara'') = Inl RequestException"
proof -
  let ?c1 = "JObj [(''id'', JInt 7), (''lat'', JStr ''20.67''), (''long'', JStr ''-103.35''),
                   (''city_name'', JStr ''Guadalajara'')]"
  let ?c2 = "JObj [(''id'', JInt 8), (''lat'', JStr ''40.63''), (''long'', JStr ''-3.16''),
                   (''city_name'', JNull)]"
  let ?w = "sample_world (Reply 200 (Some (JArr
             [JObj [(''id'', JInt 7), (''lat'', JStr ''20.67''), (''long'', JStr ''-103.35''),
                    (''city_name'', JStr ''Guadalajara'')],
              JObj [(''id'', JInt 8), (''lat'', JStr ''40.63''), (''long'', JStr ''-3.16'')]])))
             [Reply 200 (Some (JObj [])), NoReply]"
  have h1: "get_city_coordinates ?w ''Guadalajara'' = Inr (JArr [?c1, ?c2])"
    by (simp add: get_city_coordinates_def sample_world_def coordinates_entry_def)
  have h2: "1 < length [?c1, ?c2]" by simp
  have f0: "get_city_weather ?w 0 (JStr ''20.67'') (JStr ''-103.35'') = Inr (JArr [])"
    by code_simp
  have f1: "get_city_weather ?w 1 (JStr ''40.63'') (JStr ''-3.16'') = Inl RequestException"
    by code_simp
  have h3: "get_city_weather ?w 1 (value_of ([?c1, ?c2] ! 1) ''lat'')
              (value_of ([?c1, ?c2] ! 1) ''long'') = Inl RequestException"
    using f1 by (simp add: value_of_def)
  from aggregation_fails_as_a_whole [OF h1 h2 h3] obtain e' j where
    j: "j < length [?c1, ?c2]"
    and bad: "get_city_weather ?w j (value_of ([?c1, ?c2] ! j) ''lat'')
              (value_of ([?c1, ?c2] ! j) ''long'') = Inl e'"
    and res: "fst (get_city_and_weather_info ?w ''Guadalajara'') = Inl e'"
    by blast
  from j have "j = 0 \<or> j = 1" by auto
  with bad f0 f1 have "e' = RequestException" by (auto simp: value_of_def)
  with res show ?thesis by simp
qed

section \<open>Properties of the request handler\<close>

text \<open>
  Claim C6. For every inbound request whose \<^verbatim>\<open>city\<close> query parameter is missing or
  empty, the handler answers with status 400 and the body
  \<^verbatim>\<open>{"error": "City name is required"}\<close>, and its trace is empty: the aggregator is
  not invoked.
\<close>

theorem handler_requires_city:
  assumes "''city'' \<notin> fst ` set (GET req) \<or> querydict_get (GET req) ''city'' = Some ''''"
  shows "WeatherForecastView_get w req =
           (\<lparr>status = 400, body = JObj [(''error'', JStr ''City name is required'')]\<rparr>, []) \<and>
         filter is_aggregator_call (snd (WeatherForecastView_get w req)) = []"
proof -
  from assms have "querydict_get (GET req) ''city'' = None \<or>
                   querydict_get (GET req) ''city'' = Some ''''"
    using querydict_get_missing by blast
  then have "WeatherForecastView_get w req =
           (\<lparr>status = 400, body = JObj [(''error'', JStr ''City name is required'')]\<rparr>, [])"
    by (auto simp: WeatherForecastView_get_def error_response_def)
  then show ?thesis by simp
qed

text \<open>
  A request without the parameter, and a request whose last \<^verbatim>\<open>city\<close> value is
  empty.
\<close>

theorem handler_requires_city_witness:
  "WeatherForecastView_get (sample_world NoReply []) \<lparr>GET = [(''units'', ''metric'')]\<rparr> =
     (\<lparr>status = 400, body = JObj [(''error'', JStr ''City name is required'')]\<rparr>, []) \<and>
   WeatherForecastView_get (sample_world NoReply []) \<lparr>GET = [(''city'', ''Leon''), (''city'', '''')]\<rparr> =
     (\<lparr>status = 400, body = JObj [(''error'', JStr ''City name is required'')]\<rparr>, [])"
proof -
  have h1: "''city'' \<notin> fst ` set (GET \<lparr>GET = [(''units'', ''metric'')]\<rparr>) \<or>
            querydict_get (GET \<lparr>GET = [(''units'', ''metric'')]\<rparr>) ''city'' = Some ''''"
    by simp
  have h2: "''city'' \<notin> fst ` set (GET \<lparr>GET = [(''city'', ''Leon''), (''city'', '''')]\<rparr>) \<or>
            querydict_get (GET \<lparr>GET = [(''city'', ''Leon''), (''city'', '''')]\<rparr>) ''city'' = Some ''''"
    by (simp add: querydict_get_def)
  from handler_requires_city [OF h1] handler_requires_city [OF h2] show ?thesis by blast
qed

text \<open>
  Claim C7. For every request that passes validation and for which the aggregator
  returns an empty list, the handler answers with status 404 and the body
  \<^verbatim>\<open>{"error": "City not found"}\<close>.
\<close>

theorem handler_not_found:
  assumes "querydict_get (GET req) ''city'' = Some city_name" and "city_name \<noteq> []"
    and "fst (get_city_and_weather_info w city_name) = Inr []"
  shows "fst (WeatherForecastView_get w req) =
           \<lparr>status = 404, body = JObj [(''error'', JStr ''City not found'')]\<rparr>"
  using assms
  by (cases "get_city_and_weather_info w city_name")
     (simp add: WeatherForecastView_get_def error_response_def)

text \<open>
  The scenario of the unknown city, seen from the handler.
\<close>

theorem handler_not_found_witness:
  "fst (WeatherForecastView_get (sample_world (Reply 200 (Some (JArr []))) [])
          \<lparr>GET = [(''city'', ''Nonexistentville123'')]\<rparr>) =
     \<lparr>status = 404, body = JObj [(''error'', JStr ''City not found'')]\<rparr>"
proof -
  let ?w = "sample_world (Reply 200 (Some (JArr []))) []"
  let ?req = "\<lparr>GET = [(''city'', ''Nonexistentville123'')]\<rparr>"
  have h1: "querydict_get (GET ?req) ''city'' = Some ''Nonexistentville123''"
    by (simp add: querydict_get_def)
  have h2: "''Nonexistentville123'' \<noteq> []" by simp
  have h3: "fst (get_city_and_weather_info ?w ''Nonexistentville123'') = Inr []"
    by (simp add: get_city_and_weather_info_def get_city_coordinates_def sample_world_def)
  from handler_not_found [OF h1 h2 h3] show ?thesis .
qed

text \<open>
  Claim C8. For every request that passes validation and for which the aggregator
  raises, whatever the exception, the handler answers with status 500 and exactly the
  generic body \<^verbatim>\<open>{"error": "An error occurred, please try again later."}\<close>; the
  cause goes to the log, with the city name, and the body does not depend on it.
\<close>

theorem handler_internal_error:
  assumes "querydict_get (GET req) ''city'' = Some city_name" and "city_name \<noteq> []"
    and "get_city_and_weather_info w city_name = (Inl e, tr)"
  shows "fst (WeatherForecastView_get w req) =
           \<lparr>status = 500,
            body = JObj [(''error'', JStr ''An error occurred, please try again later.'')]\<rparr> \<and>
         snd (WeatherForecastView_get w req) =
           AggregatorCall city_name # tr @ [LogError (log_kind_of e) city_name e]"
  using assms by (simp add: WeatherForecastView_get_def error_response_def)

text \<open>
  One candidate whose weather call is refused with status 503.
\<close>

theorem handler_internal_error_witness:
  "WeatherForecastView_get
     (sample_world (Reply 200 (Some (JArr
        [JObj [(''id'', JInt 7), (''lat'', JStr ''20.67''), (''long'', JStr ''-103.35'')]])))
        [Reply 503 None])
     \<lparr>GET = [(''city'', ''Guadalajara'')]\<rparr> =
   (\<lparr>status = 500,
     body = JObj [(''error'', JStr ''An error occurred, please try again later.'')]\<rparr>,
    [AggregatorCall ''Guadalajara'', ResolverCall ''Guadalajara'',
     FetcherCall (JStr ''20.67'') (JStr ''-103.35''),
     LogError HTTP_error ''Guadalajara'' (HTTPError 503)])"
proof -
  let ?w = "sample_world (Reply 200 (Some (JArr
        [JObj [(''id'', JInt 7), (''lat'', JStr ''20.67''), (''long'', JStr ''-103.35'')]])))
        [Reply 503 None]"
  let ?req = "\<lparr>GET = [(''city'', ''Guadalajara'')]\<rparr>"
  have h1: "querydict_get (GET ?req) ''city'' = Some ''Guadalajara''"
    by (simp add: querydict_get_def)
  have h2: "''Guadalajara'' \<noteq> []" by simp
  have h3: "get_city_and_weather_info ?w ''Guadalajara'' =
              (Inl (HTTPError 503),
               [ResolverCall ''Guadalajara'', FetcherCall (JStr ''20.67'') (JStr ''-103.35'')])"
    by code_simp
  from handler_internal_error [OF h1 h2 h3] show ?thesis
    by (simp add: prod_eq_iff)
qed

end
